theory Spec2Isabelle
  imports Complex_Main
begin

section \<open>The imaging library, as the two scripts use it\<close>

text \<open>
  Both scripts build a logo by calling an imaging library: they allocate an image, obtain
  a drawing handle on it, issue drawing calls, and (in one script) resample and sharpen
  the result. The library is not part of the repository; an image is therefore
  represented by what the scripts determine about it: its mode, its pixel dimensions,
  the colour it was allocated with, and the ordered sequence of operations applied to it
  since. A library call that rejects its arguments raises: allocating an image of
  negative size, drawing an ellipse or a rectangle whose box has \<open>x1 < x0\<close> or
  \<open>y1 < y0\<close>, resizing to a size that is not positive, loading a font that is not there,
  writing a file that cannot be written. Each of these returns a sum, with the exception
  on the left.
\<close>

type_synonym point = "int \<times> int"
type_synonym box = "int \<times> int \<times> int \<times> int"
type_synonym color = "int \<times> int \<times> int \<times> int"

datatype font = FreeTypeFont string int string | DefaultFont

datatype resampling = NEAREST | BOX | BILINEAR | HAMMING | BICUBIC | LANCZOS

datatype image_filter = UnsharpMask rat int int

datatype draw_op =
    Ellipse box "color option" "color option" int
  | Line "point list" color int
  | Rectangle box "color option" "color option" int
  | RoundedRectangle box int "color option" "color option" int
  | Text point string color font string

datatype image_op = Draw draw_op | Resize "int \<times> int" resampling | Filter image_filter

record image =
  im_mode :: string
  im_size :: "int \<times> int"
  im_fill :: color
  im_ops :: "image_op list"

text \<open>
  The drawing handle \<open>ImageDraw.Draw(img)\<close> refers to the image it draws into (drawing
  mutates that image) and has an ink mode. The scripts never pass a mode, so the ink mode
  is the mode of the image.
\<close>

record draw =
  d_image :: image
  d_ink_mode :: string

datatype exn = OSError string | ValueError string

text \<open>
  The part of the outside world the scripts touch: the font resources that can be
  loaded, the paths at which a file can be written, the files written so far, the
  paths \<open>save\<close> has been called with so far, and the lines printed so far.
\<close>

record world =
  fonts :: "string \<rightharpoonup> string"
  writable :: "string \<Rightarrow> bool"
  files :: "string \<rightharpoonup> (image \<times> string \<times> bool)"
  save_calls :: "string list"
  stdout :: "string list"

text \<open>
  Statements in sequence: the second runs on the result of the first, unless the first
  raised. A \<open>for\<close> loop whose body draws ends at the first exception.
\<close>

definition and_then :: "exn + 'a \<Rightarrow> ('a \<Rightarrow> exn + 'b) \<Rightarrow> exn + 'b" where
  "and_then r f = (case r of Inl e \<Rightarrow> Inl e | Inr x \<Rightarrow> f x)"

fun for_each :: "('a \<Rightarrow> draw \<Rightarrow> exn + draw) \<Rightarrow> 'a list \<Rightarrow> draw \<Rightarrow> exn + draw" where
  "for_each body [] draw = Inr draw"
| "for_each body (x # xs) draw =
     (case body x draw of Inl e \<Rightarrow> Inl e | Inr draw' \<Rightarrow> for_each body xs draw')"

definition Image_new :: "string \<Rightarrow> int \<times> int \<Rightarrow> color \<Rightarrow> exn + image" where
  "Image_new m wh c =
     (if fst wh < 0 \<or> snd wh < 0 then Inl (ValueError ''Width and height must be >= 0'')
      else Inr \<lparr>im_mode = m, im_size = wh, im_fill = c, im_ops = []\<rparr>)"

definition ImageDraw_Draw :: "image \<Rightarrow> draw" where
  "ImageDraw_Draw im = \<lparr>d_image = im, d_ink_mode = im_mode im\<rparr>"

definition emit :: "draw \<Rightarrow> draw_op \<Rightarrow> draw" where
  "emit d op = d\<lparr>d_image := (d_image d)\<lparr>im_ops := im_ops (d_image d) @ [Draw op]\<rparr>\<rparr>"

text \<open>
  The check the library makes on the bounding box \<open>[x0, y0, x1, y1]\<close> of an ellipse, a
  rectangle or a rounded rectangle.
\<close>

definition box_error :: "box \<Rightarrow> exn option" where
  "box_error xy =
     (let (x0, y0, x1, y1) = xy
      in if x1 < x0 then Some (ValueError ''x1 must be greater than or equal to x0'')
         else if y1 < y0 then Some (ValueError ''y1 must be greater than or equal to y0'')
         else None)"

text \<open>
  The drawing calls, with the library's defaults written out where a script omits an
  argument: \<open>fill=None\<close>, \<open>outline=None\<close>, \<open>width=1\<close>.
\<close>

definition ellipse ::
  "draw \<Rightarrow> box \<Rightarrow> color option \<Rightarrow> color option \<Rightarrow> int \<Rightarrow> exn + draw" where
  "ellipse d xy fill outline width =
     (case box_error xy of
        Some e \<Rightarrow> Inl e
      | None \<Rightarrow> Inr (emit d (Ellipse xy fill outline width)))"

definition line :: "draw \<Rightarrow> point list \<Rightarrow> color \<Rightarrow> int \<Rightarrow> exn + draw" where
  "line d xy fill width = Inr (emit d (Line xy fill width))"

definition rectangle ::
  "draw \<Rightarrow> box \<Rightarrow> color option \<Rightarrow> color option \<Rightarrow> int \<Rightarrow> exn + draw" where
  "rectangle d xy fill outline width =
     (case box_error xy of
        Some e \<Rightarrow> Inl e
      | None \<Rightarrow> Inr (emit d (Rectangle xy fill outline width)))"

definition rounded_rectangle ::
  "draw \<Rightarrow> box \<Rightarrow> int \<Rightarrow> color option \<Rightarrow> color option \<Rightarrow> int \<Rightarrow> exn + draw" where
  "rounded_rectangle d xy radius fill outline width =
     (case box_error xy of
        Some e \<Rightarrow> Inl e
      | None \<Rightarrow> Inr (emit d (RoundedRectangle xy radius fill outline width)))"

definition text_draw ::
  "draw \<Rightarrow> point \<Rightarrow> string \<Rightarrow> color \<Rightarrow> font \<Rightarrow> string \<Rightarrow> exn + draw" where
  "text_draw d xy txt fill fnt anchor = Inr (emit d (Text xy txt fill fnt anchor))"

definition Image_resize :: "image \<Rightarrow> int \<times> int \<Rightarrow> resampling \<Rightarrow> exn + image" where
  "Image_resize im wh rs =
     (if fst wh \<le> 0 \<or> snd wh \<le> 0 then Inl (ValueError ''height and width must be > 0'')
      else Inr (im\<lparr>im_size := wh, im_ops := im_ops im @ [Resize wh rs]\<rparr>))"

definition Image_filter :: "image \<Rightarrow> image_filter \<Rightarrow> image" where
  "Image_filter im f = im\<lparr>im_ops := im_ops im @ [Filter f]\<rparr>"

definition ImageFont_truetype :: "world \<Rightarrow> string \<Rightarrow> int \<Rightarrow> exn + font" where
  "ImageFont_truetype w name pt =
     (case fonts w name of
        None \<Rightarrow> Inl (OSError ''cannot open resource'')
      | Some data \<Rightarrow> Inr (FreeTypeFont name pt data))"

definition ImageFont_load_default :: font where
  "ImageFont_load_default = DefaultFont"

definition Image_save ::
  "world \<Rightarrow> image \<Rightarrow> string \<Rightarrow> string \<Rightarrow> bool \<Rightarrow> (exn + unit) \<times> world" where
  "Image_save w im filename fmt optimize =
     (let w = w\<lparr>save_calls := save_calls w @ [filename]\<rparr>
      in if writable w filename
         then (Inr (), w\<lparr>files := (files w)(filename \<mapsto> (im, fmt, optimize))\<rparr>)
         else (Inl (OSError filename), w))"

definition print :: "world \<Rightarrow> string \<Rightarrow> world" where
  "print w s = w\<lparr>stdout := stdout w @ [s]\<rparr>"

text \<open>
  Python's \<open>int(x)\<close> on a float truncates towards zero. Floats are represented by exact
  rationals: every float the scripts truncate is the value of a short expression over
  small integers (and the constant \<open>0.9\<close>) whose exact value is either an integer or
  at least 1/100 away from the nearest integer (in \<open>create_bsl_logo\<close>, where the divisor
  is the radius: at least 1/radius away), so rounding does not change the truncation for
  any radius a canvas can have.
\<close>

definition py_int :: "rat \<Rightarrow> int" where
  "py_int x = (if 0 \<le> x then \<lfloor>x\<rfloor> else \<lceil>x\<rceil>)"

section \<open>create_hq_logo.py\<close>

definition create_smooth_circle ::
  "draw \<Rightarrow> point \<Rightarrow> int \<Rightarrow> color \<Rightarrow> int \<Rightarrow> exn + draw" where
  "create_smooth_circle draw center radius color width =
     (let (x, y) = center in
      if width = 0
      then ellipse draw (x - radius, y - radius, x + radius, y + radius) (Some color) None 1
      else ellipse draw (x - radius, y - radius, x + radius, y + radius) None (Some color) width)"

definition create_smooth_line ::
  "draw \<Rightarrow> point \<Rightarrow> point \<Rightarrow> color \<Rightarrow> int \<Rightarrow> exn + draw" where
  "create_smooth_line draw start endp color width = line draw [start, endp] color width"

text \<open>
  The gradient loop of \<open>create_hq_bsl_logo\<close>. For ring index \<open>i\<close>, the colour
  \<open>(r, g, b, alpha)\<close> and the radius \<open>current_radius\<close> computed by the loop body, the
  body itself, and the loop over \<open>range(gradient_steps)\<close>.
\<close>

definition hq_ring_color :: "int \<Rightarrow> int \<Rightarrow> color" where
  "hq_ring_color gradient_steps i =
     (let alpha = py_int (of_int (255 * (gradient_steps - i)) / of_int gradient_steps * (9 / 10));
          progress = of_int i / of_int gradient_steps :: rat;
          r = py_int (206 - (206 - 139) * progress);
          g = py_int (66 - (66 - 44) * progress);
          b = py_int (43 - (43 - 27) * progress)
      in (r, g, b, alpha))"

definition current_radius :: "int \<Rightarrow> int \<Rightarrow> int \<Rightarrow> int" where
  "current_radius radius gradient_steps i = radius - i * radius div gradient_steps"

definition hq_gradient_body :: "int \<Rightarrow> int \<Rightarrow> int \<Rightarrow> int \<Rightarrow> draw \<Rightarrow> exn + draw" where
  "hq_gradient_body center radius gradient_steps i draw =
     (if current_radius radius gradient_steps i > 0
      then create_smooth_circle draw (center, center) (current_radius radius gradient_steps i)
             (hq_ring_color gradient_steps i) 0
      else Inr draw)"

definition hq_gradient :: "int \<Rightarrow> int \<Rightarrow> int \<Rightarrow> draw \<Rightarrow> exn + draw" where
  "hq_gradient center radius gradient_steps draw =
     for_each (hq_gradient_body center radius gradient_steps) (map int [0 ..< nat gradient_steps])
       draw"

definition left_points :: "int \<Rightarrow> point list" where
  "left_points center =
     [(center - 80, center - 100),
      (center - 120, center - 100),
      (center - 120, center - 60),
      (center - 100, center - 40),
      (center - 120, center - 20),
      (center - 120, center + 20),
      (center - 100, center + 40),
      (center - 120, center + 60),
      (center - 120, center + 100),
      (center - 80, center + 100)]"

definition right_points :: "int \<Rightarrow> point list" where
  "right_points center = map (\<lambda>(x, y). (center + (center - x), y)) (left_points center)"

text \<open>The two bracket loops: one stroke between each pair of consecutive points.\<close>

definition stroke_polyline :: "point list \<Rightarrow> color \<Rightarrow> int \<Rightarrow> draw \<Rightarrow> exn + draw" where
  "stroke_polyline pts color width draw =
     for_each (\<lambda>i d. create_smooth_line d (pts ! i) (pts ! (i + 1)) color width)
       [0 ..< length pts - 1] draw"

definition hq_points :: "int \<Rightarrow> point list" where
  "hq_points center =
     [(center, center - 32),
      (center - 32, center),
      (center + 32, center),
      (center, center + 32)]"

text \<open>The body of the marker loop: shadow, marker, highlight.\<close>

definition hq_marker_body :: "int \<Rightarrow> color \<Rightarrow> color \<Rightarrow> point \<Rightarrow> draw \<Rightarrow> exn + draw" where
  "hq_marker_body dot_radius dot_color shadow_color point draw =
     and_then (create_smooth_circle draw (fst point + 2, snd point + 2) (dot_radius + 1)
                 shadow_color 0) (\<lambda>draw.
     and_then (create_smooth_circle draw point dot_radius dot_color 0) (\<lambda>draw.
     create_smooth_circle draw (fst point - 3, snd point - 3) (dot_radius div 3)
       (255, 255, 255, 150) 0))"

definition hq_connections :: "int \<Rightarrow> (point \<times> point) list" where
  "hq_connections center =
     [((center, center - 20), (center - 20, center)),
      ((center - 20, center), (center, center + 20)),
      ((center, center + 20), (center + 20, center)),
      ((center + 20, center), (center, center - 20))]"

text \<open>
  What \<open>create_hq_bsl_logo\<close> draws after the gradient loop, from the inner contour to the
  badge text, on the handle the loop leaves.
\<close>

definition hq_after_gradient :: "world \<Rightarrow> int \<Rightarrow> int \<Rightarrow> draw \<Rightarrow> exn + draw" where
  "hq_after_gradient w center radius draw =
     (let inner_radius = radius - 32 in
      and_then (create_smooth_circle draw (center, center) inner_radius (255, 255, 255, 40) 4)
        (\<lambda>draw.
      let bracket_width = 12;
          bracket_color = (255, 255, 255, 255) in
      and_then (stroke_polyline (left_points center) bracket_color bracket_width draw) (\<lambda>draw.
      and_then (stroke_polyline (right_points center) bracket_color bracket_width draw) (\<lambda>draw.
      let dot_radius = 12;
          dot_color = (0, 122, 204, 255);
          shadow_color = (0, 100, 180, 100) in
      and_then (for_each (hq_marker_body dot_radius dot_color shadow_color) (hq_points center) draw)
        (\<lambda>draw.
      let line_color = (255, 255, 255, 200);
          line_width = 6 in
      and_then (for_each (\<lambda>(start, endp) d. create_smooth_line d start endp line_color line_width)
                  (hq_connections center) draw) (\<lambda>draw.
      let gear_center = (center + 120, center + 120);
          gear_outer = 16;
          gear_inner = 8 in
      and_then (create_smooth_circle draw (fst gear_center + 2, snd gear_center + 2)
                  (gear_outer + 2) (0, 0, 0, 100) 0) (\<lambda>draw.
      and_then (create_smooth_circle draw gear_center gear_outer (255, 255, 255, 230) 0) (\<lambda>draw.
      and_then (create_smooth_circle draw gear_center gear_inner (206, 66, 43, 200) 0) (\<lambda>draw.
      and_then (create_smooth_circle draw gear_center (gear_inner div 2) (255, 255, 255, 255) 0)
        (\<lambda>draw.
      let text_center = (center + 120, center - 120);
          rect_size = 32 in
      and_then (rounded_rectangle draw
                  (fst text_center - rect_size, snd text_center - rect_size,
                   fst text_center + rect_size, snd text_center + rect_size)
                  8 (Some (255, 255, 255, 60)) (Some (255, 255, 255, 120)) 2) (\<lambda>draw.
      let font_size = 40;
          font = (case ImageFont_truetype w ''arial.ttf'' font_size of
                    Inr f \<Rightarrow> f
                  | Inl e \<Rightarrow> ImageFont_load_default);
          text = ''1C'' in
      and_then (text_draw draw (fst text_center + 2, snd text_center + 2) text (0, 0, 0, 100)
                  font ''mm'') (\<lambda>draw.
      text_draw draw text_center text (255, 255, 255, 255) font ''mm''))))))))))))"

text \<open>
  Everything \<open>create_hq_bsl_logo\<close> does before it resamples: the handle after the last
  drawing call. Its image is the working canvas.
\<close>

definition hq_paint :: "world \<Rightarrow> int \<Rightarrow> exn + draw" where
  "hq_paint w sz =
     (let scale = 4;
          work_size = sz * scale in
      and_then (Image_new ''RGBA'' (work_size, work_size) (0, 0, 0, 0)) (\<lambda>img.
      let draw = ImageDraw_Draw img;
          center = work_size div 2;
          radius = work_size div 2 - 32;
          gradient_steps = 50 in
      and_then (hq_gradient center radius gradient_steps draw) (\<lambda>draw.
      hq_after_gradient w center radius draw)))"

definition create_hq_bsl_logo :: "world \<Rightarrow> int \<Rightarrow> exn + image" where
  "create_hq_bsl_logo w sz =
     and_then (hq_paint w sz) (\<lambda>draw.
     let img = d_image draw in
     and_then (Image_resize img (sz, sz) LANCZOS) (\<lambda>img.
     let img = Image_filter img (UnsharpMask (1 / 2) 120 2) in
     Inr img))"

text \<open>The handle of \<open>create_simplified_logo\<close> after its last drawing call.\<close>

definition simplified_paint :: "int \<Rightarrow> exn + draw" where
  "simplified_paint sz =
     and_then (Image_new ''RGBA'' (sz, sz) (0, 0, 0, 0)) (\<lambda>img.
     let draw = ImageDraw_Draw img;
         center = sz div 2;
         radius = sz div 2 - 2 in
     and_then (ellipse draw (2, 2, sz - 2, sz - 2) (Some (206, 66, 43, 255)) None 1) (\<lambda>draw.
     let bracket_width = max 1 (sz div 16) in
     and_then (rectangle draw
                 (center div 2, center div 2, center div 2 + bracket_width, center + center div 2)
                 (Some (255, 255, 255, 255)) None 1) (\<lambda>draw.
     and_then (rectangle draw
                 (center + center div 2, center div 2,
                  center + center div 2 + bracket_width, center + center div 2)
                 (Some (255, 255, 255, 255)) None 1) (\<lambda>draw.
     let dot_size = max 1 (sz div 8) in
     ellipse draw
       (center - dot_size, center - dot_size, center + dot_size, center + dot_size)
       (Some (0, 122, 204, 255)) None 1))))"

definition create_simplified_logo :: "int \<Rightarrow> exn + image" where
  "create_simplified_logo sz = and_then (simplified_paint sz) (\<lambda>draw. Inr (d_image draw))"

text \<open>Python's \<open>str\<close> on an integer, for the formatted strings.\<close>

function str_nat :: "nat \<Rightarrow> string" where
  "str_nat n =
     (if n < 10 then [''0123456789'' ! n]
      else str_nat (n div 10) @ [''0123456789'' ! (n mod 10)])"
  by pat_completeness auto
termination
  by (relation "measure id") auto

definition str :: "int \<Rightarrow> string" where
  "str i = (if i < 0 then CHR ''-'' # str_nat (nat (- i)) else str_nat (nat i))"

text \<open>The insertion-ordered dictionary \<open>sizes\<close> of \<open>create_optimized_icons\<close>.\<close>

definition sizes :: "(int \<times> string) list" where
  "sizes = [(16, ''small''), (24, ''medium''), (32, ''large''), (48, ''xlarge''), (128, ''icon'')]"

text \<open>The choice of generator inside the loop of \<open>create_optimized_icons\<close>.\<close>

definition logo_for_size :: "world \<Rightarrow> int \<Rightarrow> exn + image" where
  "logo_for_size w sz =
     (if sz \<le> 24 then create_simplified_logo sz else create_hq_bsl_logo w sz)"

text \<open>
  The loop of \<open>create_optimized_icons\<close> over the remaining entries of \<open>sizes\<close>. Nothing in
  it is inside a \<open>try\<close>: when a generator or \<open>save\<close> raises, the loop ends there with
  the exception and the world as it is.
\<close>

fun icons_loop ::
  "(int \<times> string) list \<Rightarrow> string list \<Rightarrow> world \<Rightarrow> (exn + string list) \<times> world" where
  "icons_loop [] icons_created w = (Inr icons_created, w)"
| "icons_loop ((sz, suffix) # rest) icons_created w =
     (let w = print w (''Creating '' @ str sz @ ''x'' @ str sz @ '' icon...'')
      in case logo_for_size w sz of
           Inl e \<Rightarrow> (Inl e, w)
         | Inr logo \<Rightarrow>
             (let filename = ''vscode-extension/images/bsl-analyzer-'' @ suffix @ ''.png''
              in case Image_save w logo filename ''PNG'' True of
                   (Inl e, w) \<Rightarrow> (Inl e, w)
                 | (Inr u, w) \<Rightarrow>
                     (let icons_created =
                            icons_created @ [str sz @ ''x'' @ str sz @ '' -> '' @ filename];
                          w = print w (''  Saved: '' @ filename)
                      in icons_loop rest icons_created w)))"

definition create_optimized_icons :: "world \<Rightarrow> (exn + string list) \<times> world" where
  "create_optimized_icons w = icons_loop sizes [] w"

text \<open>The script body of \<open>create_hq_logo.py\<close>.\<close>

definition main_hq :: "world \<Rightarrow> (exn + unit) \<times> world" where
  "main_hq w =
     (let w = print w ''Creating high-quality BSL Analyzer icons...''
      in case create_hq_bsl_logo w 128 of
           Inl e \<Rightarrow> (Inl e, w)
         | Inr main_logo \<Rightarrow>
            (case Image_save w main_logo ''vscode-extension/images/bsl-analyzer-logo.png''
                    ''PNG'' True of
               (Inl e, w) \<Rightarrow> (Inl e, w)
             | (Inr u, w) \<Rightarrow>
                 (let w = print w ''Main logo created: bsl-analyzer-logo.png''
                  in case create_optimized_icons w of
                       (Inl e, w) \<Rightarrow> (Inl e, w)
                     | (Inr icons, w) \<Rightarrow>
                         (let w = print w (CHR 0x0A # ''Successfully created ''
                                             @ str (int (length icons) + 1)
                                             @ '' high-quality icons:'');
                              w = print w ''  - bsl-analyzer-logo.png (128x128)'';
                              w = fold (\<lambda>icon w. print w (''  - '' @ icon)) icons w;
                              w = print w (CHR 0x0A # ''Features:'');
                              w = print w ''  + High-quality anti-aliasing'';
                              w = print w ''  + Smooth gradients and shadows'';
                              w = print w ''  + Optimized for different sizes'';
                              w = print w ''  + Professional appearance in VSCode''
                          in (Inr (), w)))))"

section \<open>create_logo_png.py\<close>

text \<open>
  The gradient loop of \<open>create_bsl_logo\<close>: the colour computed for ring index \<open>i\<close>, the
  loop body, and the loop over \<open>range(radius)\<close>.
\<close>

definition logo_ring_color :: "int \<Rightarrow> int \<Rightarrow> color" where
  "logo_ring_color radius i =
     (let alpha = py_int (of_int (255 * (radius - i)) / of_int radius);
          r = py_int (206 - of_int ((206 - 139) * i) / of_int radius);
          g = py_int (66 - of_int ((66 - 44) * i) / of_int radius);
          b = py_int (43 - of_int ((43 - 27) * i) / of_int radius)
      in (r, g, b, alpha))"

definition logo_gradient_body :: "int \<Rightarrow> int \<Rightarrow> int \<Rightarrow> draw \<Rightarrow> exn + draw" where
  "logo_gradient_body center radius i draw =
     ellipse draw
       (center - radius + i, center - radius + i, center + radius - i, center + radius - i)
       (Some (logo_ring_color radius i)) None 1"

definition logo_gradient :: "int \<Rightarrow> int \<Rightarrow> draw \<Rightarrow> exn + draw" where
  "logo_gradient center radius draw =
     for_each (logo_gradient_body center radius) (map int [0 ..< nat radius]) draw"

definition bracket_points_left :: "int \<Rightarrow> point list" where
  "bracket_points_left center =
     [(center - 20, center - 25), (center - 30, center - 25), (center - 30, center - 15),
      (center - 25, center - 10), (center - 30, center - 5), (center - 30, center + 5),
      (center - 25, center + 10), (center - 30, center + 15), (center - 30, center + 25),
      (center - 20, center + 25)]"

definition bracket_points_right :: "int \<Rightarrow> point list" where
  "bracket_points_right center =
     [(center + 20, center - 25), (center + 30, center - 25), (center + 30, center - 15),
      (center + 25, center - 10), (center + 30, center - 5), (center + 30, center + 5),
      (center + 25, center + 10), (center + 30, center + 15), (center + 30, center + 25),
      (center + 20, center + 25)]"

text \<open>The body of the bracket loop: one stroke of the left bracket, one of the right.\<close>

definition logo_bracket_body :: "int \<Rightarrow> nat \<Rightarrow> draw \<Rightarrow> exn + draw" where
  "logo_bracket_body center i draw =
     and_then (line draw [bracket_points_left center ! i, bracket_points_left center ! (i + 1)]
                 (255, 255, 255, 255) 3) (\<lambda>draw.
     line draw [bracket_points_right center ! i, bracket_points_right center ! (i + 1)]
       (255, 255, 255, 255) 3)"

definition logo_points :: "int \<Rightarrow> point list" where
  "logo_points center =
     [(center, center - 8),
      (center - 8, center),
      (center + 8, center),
      (center, center + 8)]"

definition logo_connections :: "int \<Rightarrow> (point \<times> point) list" where
  "logo_connections center =
     [((center, center - 5), (center - 5, center)),
      ((center - 5, center), (center, center + 5)),
      ((center, center + 5), (center + 5, center)),
      ((center + 5, center), (center, center - 5))]"

text \<open>The handle of \<open>create_bsl_logo\<close> after its last drawing call.\<close>

definition logo_paint :: "world \<Rightarrow> int \<Rightarrow> exn + draw" where
  "logo_paint w sz =
     and_then (Image_new ''RGBA'' (sz, sz) (0, 0, 0, 0)) (\<lambda>img.
     let draw = ImageDraw_Draw img;
         center = sz div 2;
         radius = sz div 2 - 8 in
     and_then (logo_gradient center radius draw) (\<lambda>draw.
     let inner_radius = radius - 8 in
     and_then (ellipse draw
                 (center - inner_radius, center - inner_radius,
                  center + inner_radius, center + inner_radius)
                 None (Some (255, 255, 255, 50)) 1) (\<lambda>draw.
     and_then (for_each (logo_bracket_body center) [0 ..< length (bracket_points_left center) - 1]
                 draw) (\<lambda>draw.
     and_then (for_each (\<lambda>point d.
                  ellipse d (fst point - 3, snd point - 3, fst point + 3, snd point + 3)
                    (Some (0, 122, 204, 255)) None 1)
                 (logo_points center) draw) (\<lambda>draw.
     and_then (for_each (\<lambda>(start, endp) d. line d [start, endp] (255, 255, 255, 200) 2)
                 (logo_connections center) draw) (\<lambda>draw.
     let gear_center = (center + 30, center + 30);
         gear_radius = 4 in
     and_then (ellipse draw
                 (fst gear_center - gear_radius, snd gear_center - gear_radius,
                  fst gear_center + gear_radius, snd gear_center + gear_radius)
                 (Some (255, 255, 255, 230)) None 1) (\<lambda>draw.
     let gear_inner = 2 in
     and_then (ellipse draw
                 (fst gear_center - gear_inner, snd gear_center - gear_inner,
                  fst gear_center + gear_inner, snd gear_center + gear_inner)
                 (Some (206, 66, 43, 200)) None 1) (\<lambda>draw.
     let text_center = (center + 30, center - 30) in
     and_then (rectangle draw
                 (fst text_center - 8, snd text_center - 8, fst text_center + 8, snd text_center + 8)
                 (Some (255, 255, 255, 50)) None 1) (\<lambda>draw.
     let font = (case ImageFont_truetype w ''arial.ttf'' 10 of
                   Inr f \<Rightarrow> f
                 | Inl e \<Rightarrow> ImageFont_load_default) in
     text_draw draw text_center ''1C'' (255, 255, 255, 255) font ''mm'')))))))))"

definition create_bsl_logo :: "world \<Rightarrow> int \<Rightarrow> exn + image" where
  "create_bsl_logo w sz = and_then (logo_paint w sz) (\<lambda>draw. Inr (d_image draw))"

text \<open>The loop of the script body over the additional sizes.\<close>

fun logo_sizes_loop :: "int list \<Rightarrow> world \<Rightarrow> (exn + unit) \<times> world" where
  "logo_sizes_loop [] w = (Inr (), w)"
| "logo_sizes_loop (sz # rest) w =
     (case create_bsl_logo w sz of
        Inl e \<Rightarrow> (Inl e, w)
      | Inr logo_resized \<Rightarrow>
          (case Image_save w logo_resized
                  (''vscode-extension/images/bsl-analyzer-logo-'' @ str sz @ ''.png'') ''PNG'' False of
             (Inl e, w) \<Rightarrow> (Inl e, w)
           | (Inr u, w) \<Rightarrow>
               (let w = print w (''Logo '' @ str sz @ ''x'' @ str sz @ '' created'')
                in logo_sizes_loop rest w)))"

text \<open>The script body of \<open>create_logo_png.py\<close>.\<close>

definition main_png :: "world \<Rightarrow> (exn + unit) \<times> world" where
  "main_png w =
     (case create_bsl_logo w 128 of
        Inl e \<Rightarrow> (Inl e, w)
      | Inr logo \<Rightarrow>
          (case Image_save w logo ''vscode-extension/images/bsl-analyzer-logo.png'' ''PNG'' False of
             (Inl e, w) \<Rightarrow> (Inl e, w)
           | (Inr u, w) \<Rightarrow>
               (let w = print w ''Logo created: vscode-extension/images/bsl-analyzer-logo.png'';
                    sizes = [32, 64, 256]
                in logo_sizes_loop sizes w)))"

section \<open>Vocabulary for the statements\<close>

text \<open>
  \<open>emits d ops\<close> is the handle \<open>d\<close> after the drawing operations \<open>ops\<close> have been issued
  on it in order; \<open>canvas n\<close> is a fresh handle on a transparent \<open>n\<close> by \<open>n\<close> RGBA image;
  \<open>bare_world\<close> is a world with no font resource, where every path can be written.
\<close>

definition emits :: "draw \<Rightarrow> draw_op list \<Rightarrow> draw" where
  "emits d ops = d\<lparr>d_image := (d_image d)\<lparr>im_ops := im_ops (d_image d) @ map Draw ops\<rparr>\<rparr>"

definition canvas :: "int \<Rightarrow> draw" where
  "canvas n =
     ImageDraw_Draw \<lparr>im_mode = ''RGBA'', im_size = (n, n), im_fill = (0, 0, 0, 0), im_ops = []\<rparr>"

definition bare_world :: world where
  "bare_world = \<lparr>fonts = Map.empty, writable = (\<lambda>p. True), files = Map.empty,
                  save_calls = [], stdout = []\<rparr>"

text \<open>
  The output paths of the two scripts in the order they are written, the exception a
  result carries, and the fail-stop behaviour of a run over such paths from world \<open>w\<close>.
\<close>

definition icon_filename :: "string \<Rightarrow> string" where
  "icon_filename suffix = ''vscode-extension/images/bsl-analyzer-'' @ suffix @ ''.png''"

definition logo_filename :: "int \<Rightarrow> string" where
  "logo_filename sz = ''vscode-extension/images/bsl-analyzer-logo-'' @ str sz @ ''.png''"

definition hq_script_paths :: "string list" where
  "hq_script_paths =
     ''vscode-extension/images/bsl-analyzer-logo.png'' # map (\<lambda>(sz, suffix). icon_filename suffix) sizes"

definition png_script_paths :: "string list" where
  "png_script_paths =
     ''vscode-extension/images/bsl-analyzer-logo.png'' # map logo_filename [32, 64, 256]"

definition raised :: "exn + 'a \<Rightarrow> exn option" where
  "raised r = (case r of Inl e \<Rightarrow> Some e | Inr x \<Rightarrow> None)"

definition fail_stop :: "world \<Rightarrow> string list \<Rightarrow> (exn + 'a) \<times> world \<Rightarrow> bool" where
  "fail_stop w ps r =
     (save_calls (snd r)
        = save_calls w @ takeWhile (writable w) ps @ take 1 (dropWhile (writable w) ps)
      \<and> raised (fst r)
          = (case dropWhile (writable w) ps of [] \<Rightarrow> None | p # rest \<Rightarrow> Some (OSError p))
      \<and> (\<forall>q \<in> set (takeWhile (writable w) ps). files (snd r) q \<noteq> None)
      \<and> (\<forall>q. q \<notin> set (takeWhile (writable w) ps) \<longrightarrow> files (snd r) q = files w q)
      \<and> writable (snd r) = writable w
      \<and> fonts (snd r) = fonts w)"

definition medium_unwritable :: world where
  "medium_unwritable =
     bare_world\<lparr>writable := (\<lambda>p. p \<noteq> ''vscode-extension/images/bsl-analyzer-medium.png'')\<rparr>"

section \<open>Drawing calls as emitted operations\<close>

lemma and_then_simps [simp]:
  "and_then (Inr x) f = f x"
  "and_then (Inl e) f = Inl e"
  by (simp_all add: and_then_def)

lemma emits_Nil: "emits d [] = d"
  by (simp add: emits_def)

lemma emit_emits: "emit d op = emits d [op]"
  by (simp add: emits_def emit_def)

lemma emits_emits: "emits (emits d xs) ys = emits d (xs @ ys)"
  by (simp add: emits_def)

lemma for_each_emits:
  assumes "\<And>x d. x \<in> set xs \<Longrightarrow> f x d = Inr (emits d (g x))"
  shows "for_each f xs d = Inr (emits d (concat (map g xs)))"
  using assms by (induction xs arbitrary: d) (simp_all add: emits_Nil emits_emits)

lemma for_each_emits_fun:
  "for_each (\<lambda>x d. Inr (emits d (g x))) xs d = Inr (emits d (concat (map g xs)))"
  by (rule for_each_emits) simp

lemma for_each_emits_pair:
  "for_each (\<lambda>(a, b) d. Inr (emits d (g a b))) xs d
     = Inr (emits d (concat (map (\<lambda>(a, b). g a b) xs)))"
  by (rule for_each_emits) (simp split: prod.splits)

lemma box_error_ok: "x0 \<le> x1 \<Longrightarrow> y0 \<le> y1 \<Longrightarrow> box_error (x0, y0, x1, y1) = None"
  by (simp add: box_error_def)

lemma box_error_x:
  "x1 < x0 \<Longrightarrow> box_error (x0, y0, x1, y1) = Some (ValueError ''x1 must be greater than or equal to x0'')"
  by (simp add: box_error_def)

lemma ellipse_emits:
  "x0 \<le> x1 \<Longrightarrow> y0 \<le> y1 \<Longrightarrow>
   ellipse d (x0, y0, x1, y1) f ol width = Inr (emits d [Ellipse (x0, y0, x1, y1) f ol width])"
  by (simp add: ellipse_def emit_emits box_error_ok)

lemma ellipse_raises:
  "x1 < x0 \<Longrightarrow>
   ellipse d (x0, y0, x1, y1) f ol width = Inl (ValueError ''x1 must be greater than or equal to x0'')"
  by (simp add: ellipse_def box_error_x)

lemma rectangle_emits:
  "x0 \<le> x1 \<Longrightarrow> y0 \<le> y1 \<Longrightarrow>
   rectangle d (x0, y0, x1, y1) f ol width = Inr (emits d [Rectangle (x0, y0, x1, y1) f ol width])"
  by (simp add: rectangle_def emit_emits box_error_ok)

lemma rounded_rectangle_emits:
  "x0 \<le> x1 \<Longrightarrow> y0 \<le> y1 \<Longrightarrow>
   rounded_rectangle d (x0, y0, x1, y1) r f ol width
     = Inr (emits d [RoundedRectangle (x0, y0, x1, y1) r f ol width])"
  by (simp add: rounded_rectangle_def emit_emits box_error_ok)

lemma text_draw_emits: "text_draw d xy t c f a = Inr (emits d [Text xy t c f a])"
  by (simp add: text_draw_def emit_emits)

lemma line_emits: "line d xy c width = Inr (emits d [Line xy c width])"
  by (simp add: line_def emit_emits)

lemma create_smooth_circle_emits:
  "0 \<le> r \<Longrightarrow>
   create_smooth_circle d (x, y) r c width =
     Inr (emits d [if width = 0 then Ellipse (x - r, y - r, x + r, y + r) (Some c) None 1
                   else Ellipse (x - r, y - r, x + r, y + r) None (Some c) width])"
  by (simp add: create_smooth_circle_def ellipse_emits)

lemma create_smooth_circle_raises:
  "r < 0 \<Longrightarrow>
   create_smooth_circle d (x, y) r c width
     = Inl (ValueError ''x1 must be greater than or equal to x0'')"
  by (simp add: create_smooth_circle_def ellipse_raises)

lemma create_smooth_line_emits:
  "create_smooth_line d a b c width = Inr (emits d [Line [a, b] c width])"
  by (simp add: create_smooth_line_def line_emits)

lemma hq_gradient_body_emits:
  "hq_gradient_body c r gs i d =
     Inr (emits d (if 0 < current_radius r gs i
              then [Ellipse (c - current_radius r gs i, c - current_radius r gs i,
                             c + current_radius r gs i, c + current_radius r gs i)
                      (Some (hq_ring_color gs i)) None 1]
              else []))"
  by (simp add: hq_gradient_body_def create_smooth_circle_emits emits_Nil)

lemma hq_gradient_emits:
  "hq_gradient c r gs d =
     Inr (emits d (concat (map (\<lambda>i. if 0 < current_radius r gs i
              then [Ellipse (c - current_radius r gs i, c - current_radius r gs i,
                             c + current_radius r gs i, c + current_radius r gs i)
                      (Some (hq_ring_color gs i)) None 1]
              else []) (map int [0 ..< nat gs]))))"
  unfolding hq_gradient_def by (rule for_each_emits) (rule hq_gradient_body_emits)

lemma stroke_polyline_emits:
  "stroke_polyline pts c width d =
     Inr (emits d (concat (map (\<lambda>i. [Line [pts ! i, pts ! (i + 1)] c width])
                            [0 ..< length pts - 1])))"
  unfolding stroke_polyline_def by (rule for_each_emits) (rule create_smooth_line_emits)

lemma hq_marker_body_emits:
  "0 \<le> dr \<Longrightarrow>
   hq_marker_body dr dc sc p d =
     Inr (emits d
       [Ellipse (fst p + 2 - (dr + 1), snd p + 2 - (dr + 1), fst p + 2 + (dr + 1), snd p + 2 + (dr + 1))
          (Some sc) None 1,
        Ellipse (fst p - dr, snd p - dr, fst p + dr, snd p + dr) (Some dc) None 1,
        Ellipse (fst p - 3 - dr div 3, snd p - 3 - dr div 3, fst p - 3 + dr div 3, snd p - 3 + dr div 3)
          (Some (255, 255, 255, 150)) None 1])"
  unfolding hq_marker_body_def
  by (cases p) (simp add: create_smooth_circle_emits emits_emits pos_imp_zdiv_nonneg_iff)

lemma hq_markers_emits:
  "0 \<le> dr \<Longrightarrow>
   for_each (hq_marker_body dr dc sc) ps d =
     Inr (emits d (concat (map (\<lambda>p.
       [Ellipse (fst p + 2 - (dr + 1), snd p + 2 - (dr + 1), fst p + 2 + (dr + 1), snd p + 2 + (dr + 1))
          (Some sc) None 1,
        Ellipse (fst p - dr, snd p - dr, fst p + dr, snd p + dr) (Some dc) None 1,
        Ellipse (fst p - 3 - dr div 3, snd p - 3 - dr div 3, fst p - 3 + dr div 3, snd p - 3 + dr div 3)
          (Some (255, 255, 255, 150)) None 1]) ps)))"
  by (rule for_each_emits) (rule hq_marker_body_emits)

lemma logo_gradient_emits:
  "logo_gradient c r d =
     Inr (emits d (concat (map (\<lambda>i. [Ellipse (c - r + i, c - r + i, c + r - i, c + r - i)
                                        (Some (logo_ring_color r i)) None 1])
                     (map int [0 ..< nat r]))))"
  unfolding logo_gradient_def
  by (rule for_each_emits) (auto simp add: logo_gradient_body_def ellipse_emits)

lemma logo_bracket_body_emits:
  "logo_bracket_body c i d =
     Inr (emits d
       [Line [bracket_points_left c ! i, bracket_points_left c ! (i + 1)] (255, 255, 255, 255) 3,
        Line [bracket_points_right c ! i, bracket_points_right c ! (i + 1)] (255, 255, 255, 255) 3])"
  by (simp add: logo_bracket_body_def line_emits emits_emits)

lemma logo_brackets_emits:
  "for_each (logo_bracket_body c) is d =
     Inr (emits d (concat (map (\<lambda>i.
        [Line [bracket_points_left c ! i, bracket_points_left c ! (i + 1)] (255, 255, 255, 255) 3,
         Line [bracket_points_right c ! i, bracket_points_right c ! (i + 1)] (255, 255, 255, 255) 3])
        is)))"
  by (rule for_each_emits) (rule logo_bracket_body_emits)

lemmas paint_emits =
  create_smooth_circle_emits create_smooth_line_emits hq_gradient_emits stroke_polyline_emits
  hq_markers_emits for_each_emits_fun for_each_emits_pair rounded_rectangle_emits text_draw_emits
  ellipse_emits rectangle_emits line_emits emits_emits logo_gradient_emits logo_brackets_emits

lemma emits_mode [simp]: "im_mode (d_image (emits d ops)) = im_mode (d_image d)"
  and emits_size [simp]: "im_size (d_image (emits d ops)) = im_size (d_image d)"
  and emits_fill [simp]: "im_fill (d_image (emits d ops)) = im_fill (d_image d)"
  and emits_ink [simp]: "d_ink_mode (emits d ops) = d_ink_mode d"
  and emits_ops [simp]: "im_ops (d_image (emits d ops)) = im_ops (d_image d) @ map Draw ops"
  by (simp_all add: emits_def)

lemma canvas_simps [simp]:
  "im_mode (d_image (canvas n)) = ''RGBA''"
  "im_size (d_image (canvas n)) = (n, n)"
  "im_fill (d_image (canvas n)) = (0, 0, 0, 0)"
  "im_ops (d_image (canvas n)) = []"
  "d_ink_mode (canvas n) = ''RGBA''"
  by (simp_all add: canvas_def ImageDraw_Draw_def)

lemma Image_new_canvas:
  "0 \<le> n \<Longrightarrow>
   and_then (Image_new ''RGBA'' (n, n) (0, 0, 0, 0)) (\<lambda>img. k (ImageDraw_Draw img)) = k (canvas n)"
  by (simp add: Image_new_def canvas_def)

lemma Image_new_raises:
  "n < 0 \<Longrightarrow>
   and_then (Image_new ''RGBA'' (n, n) (0, 0, 0, 0)) k
     = Inl (ValueError ''Width and height must be >= 0'')"
  by (simp add: Image_new_def)

lemma resize_simps [simp]:
  "0 < a \<Longrightarrow> 0 < b \<Longrightarrow>
   Image_resize im (a, b) rs = Inr (im\<lparr>im_size := (a, b), im_ops := im_ops im @ [Resize (a, b) rs]\<rparr>)"
  by (simp add: Image_resize_def)

lemma filter_simps [simp]:
  "im_size (Image_filter im f) = im_size im"
  "im_mode (Image_filter im f) = im_mode im"
  "im_ops (Image_filter im f) = im_ops im @ [Filter f]"
  by (simp_all add: Image_filter_def)

section \<open>The arithmetic of the gradient rings\<close>

lemma py_int_div: "0 \<le> a \<Longrightarrow> 0 < b \<Longrightarrow> py_int (of_int a / of_int b) = a div b"
  by (simp add: py_int_def floor_divide_of_int_eq zero_le_divide_iff)

lemma hq_alpha_closed:
  assumes "i \<le> 50"
  shows "py_int (of_int (255 * (50 - i)) / of_int 50 * (9 / 10)) = 459 * (50 - i) div 100"
proof -
  have eq: "(of_int (255 * (50 - i)) / of_int 50 * (9 / 10) :: rat)
          = of_int (459 * (50 - i)) / of_int 100"
    by simp
  have "py_int (of_int (459 * (50 - i)) / of_int 100) = 459 * (50 - i) div 100"
    using assms by (intro py_int_div) auto
  then show ?thesis
    by (simp only: eq)
qed

lemma hq_channel_closed:
  assumes "0 \<le> a * 50 - k * i"
  shows "py_int (of_int a - of_int k * (of_int i / of_int 50)) = (a * 50 - k * i) div 50"
proof -
  have eq: "(of_int a - of_int k * (of_int i / of_int 50) :: rat)
              = of_int (a * 50 - k * i) / of_int 50"
    by (simp add: field_simps)
  have "py_int (of_int (a * 50 - k * i) / of_int 50) = (a * 50 - k * i) div 50"
    using assms by (intro py_int_div) auto
  then show ?thesis
    by (simp only: eq)
qed

lemma hq_ring_color_closed:
  assumes "0 \<le> i" "i < 50"
  shows "hq_ring_color 50 i
           = ((10300 - 67 * i) div 50, (3300 - 22 * i) div 50, (2150 - 16 * i) div 50,
              459 * (50 - i) div 100)"
proof -
  have r: "py_int (206 - (206 - 139) * (of_int i / of_int 50)) = (10300 - 67 * i) div 50"
    using hq_channel_closed [of 206 67 i] assms by simp
  have g: "py_int (66 - (66 - 44) * (of_int i / of_int 50)) = (3300 - 22 * i) div 50"
    using hq_channel_closed [of 66 22 i] assms by simp
  have b: "py_int (43 - (43 - 27) * (of_int i / of_int 50)) = (2150 - 16 * i) div 50"
    using hq_channel_closed [of 43 16 i] assms by simp
  have a: "py_int (of_int (255 * (50 - i)) / of_int 50 * (9 / 10)) = 459 * (50 - i) div 100"
    using hq_alpha_closed [of i] assms by simp
  show ?thesis
    unfolding hq_ring_color_def Let_def using r g b a by simp
qed

lemma div_less_div_int:
  fixes a b c :: int
  assumes "a + c \<le> b" "0 < c"
  shows "a div c < b div c"
proof -
  have "(a + c) div c \<le> b div c"
    using assms by (intro zdiv_mono1) auto
  moreover have "(a + c) div c = a div c + 1"
    by (rule div_add_self2) (use assms in simp)
  ultimately show ?thesis
    by linarith
qed

lemma hq_alpha_decreasing:
  assumes "0 \<le> i" "i < j" "j < 50"
  shows "snd (snd (snd (hq_ring_color 50 j))) < snd (snd (snd (hq_ring_color 50 i)))"
proof -
  have "459 * (50 - j) div 100 < 459 * (50 - i) div (100::int)"
    using assms by (intro div_less_div_int) auto
  then show ?thesis
    using assms by (simp add: hq_ring_color_closed)
qed

lemma logo_channel_closed:
  assumes "0 \<le> i" "i < radius" "k \<le> a"  "0 \<le> k"
  shows "py_int (of_int a - of_int (k * i) / of_int radius) = (a * radius - k * i) div radius"
proof -
  have pos: "0 < radius" using assms by simp
  have "k * i \<le> a * radius"
    using assms by (intro mult_mono) auto
  then have nn: "0 \<le> a * radius - k * i" by simp
  have eq: "(of_int a - of_int (k * i) / of_int radius :: rat)
              = of_int (a * radius - k * i) / of_int radius"
    using pos by (simp add: field_simps)
  show ?thesis
    using py_int_div [OF nn pos] by (simp only: eq)
qed

lemma logo_ring_color_closed:
  assumes "0 \<le> i" "i < radius"
  shows "logo_ring_color radius i
           = ((206 * radius - 67 * i) div radius, (66 * radius - 22 * i) div radius,
              (43 * radius - 16 * i) div radius, 255 * (radius - i) div radius)"
proof -
  have r: "py_int (206 - of_int ((206 - 139) * i) / of_int radius) = (206 * radius - 67 * i) div radius"
    using logo_channel_closed [of i radius 67 206] assms by simp
  have g: "py_int (66 - of_int ((66 - 44) * i) / of_int radius) = (66 * radius - 22 * i) div radius"
    using logo_channel_closed [of i radius 22 66] assms by simp
  have b: "py_int (43 - of_int ((43 - 27) * i) / of_int radius) = (43 * radius - 16 * i) div radius"
    using logo_channel_closed [of i radius 16 43] assms by simp
  have a: "py_int (of_int (255 * (radius - i)) / of_int radius) = 255 * (radius - i) div radius"
    using py_int_div [of "255 * (radius - i)" radius] assms by simp
  show ?thesis
    unfolding logo_ring_color_def Let_def using r g b a by simp
qed

lemma logo_alpha_nonincreasing:
  assumes "0 \<le> i" "i \<le> j" "j < radius"
  shows "snd (snd (snd (logo_ring_color radius j))) \<le> snd (snd (snd (logo_ring_color radius i)))"
proof -
  have "255 * (radius - j) div radius \<le> 255 * (radius - i) div radius"
    using assms by (intro zdiv_mono1) auto
  then show ?thesis
    using assms by (simp add: logo_ring_color_closed)
qed

lemma logo_alpha_decreasing:
  assumes "0 \<le> i" "i < j" "j < radius" "radius \<le> 255"
  shows "snd (snd (snd (logo_ring_color radius j))) < snd (snd (snd (logo_ring_color radius i)))"
proof -
  have pos: "0 < radius" using assms by simp
  have "255 * (radius - j) + radius \<le> 255 * (radius - i)"
    using assms by simp
  then have "255 * (radius - j) div radius < 255 * (radius - i) div radius"
    using pos by (rule div_less_div_int)
  then show ?thesis
    using assms by (simp add: logo_ring_color_closed)
qed

lemma current_radius_positive:
  assumes "1 \<le> radius" "0 \<le> i" "i < 50"
  shows "0 < current_radius radius 50 i"
proof -
  have "i * radius \<le> 49 * radius"
    using assms by (intro mult_right_mono) auto
  then have "i * radius div 50 \<le> 49 * radius div 50"
    by (intro zdiv_mono1) auto
  moreover have "49 * radius div 50 < radius"
    using assms(1) by arith
  ultimately show ?thesis
    by (simp add: current_radius_def)
qed

lemma concat_map_if:
  "concat (map (\<lambda>x. if P x then [f x] else []) xs) = map f (filter P xs)"
  by (induction xs) auto

lemma hq_gradient_rings:
  "hq_gradient c r 50 d =
     Inr (emits d (map (\<lambda>i. Ellipse (c - current_radius r 50 i, c - current_radius r 50 i,
                                    c + current_radius r 50 i, c + current_radius r 50 i)
                           (Some (hq_ring_color 50 i)) None 1)
                    (filter (\<lambda>i. 0 < current_radius r 50 i) (map int [0 ..< 50]))))"
  unfolding hq_gradient_emits concat_map_if by (simp only: nat_numeral)

lemma hq_gradient_all_rings:
  assumes "1 \<le> r"
  shows "filter (\<lambda>i. 0 < current_radius r 50 i) (map int [0 ..< 50]) = map int [0 ..< 50]"
proof (rule filter_True, clarify)
  fix x assume "x \<in> set (map int [0 ..< 50])"
  then obtain n where "x = int n" "n < 50"
    by (auto simp only: set_map set_upt image_iff atLeastLessThan_iff)
  then show "0 < current_radius r 50 x"
    using assms by (intro current_radius_positive) simp_all
qed

section \<open>The shape of the painted canvases\<close>

lemma Image_new_ok:
  "0 \<le> n \<Longrightarrow> Image_new ''RGBA'' (n, n) (0, 0, 0, 0) = Inr (d_image (canvas n))"
  by (simp add: Image_new_def canvas_def ImageDraw_Draw_def)

lemma Draw_canvas: "ImageDraw_Draw (d_image (canvas n)) = canvas n"
  by (simp add: canvas_def ImageDraw_Draw_def)

lemma font_cases:
  "(case ImageFont_truetype w ''arial.ttf'' pt of Inr f \<Rightarrow> f | Inl e \<Rightarrow> ImageFont_load_default)
     = (case fonts w ''arial.ttf'' of None \<Rightarrow> DefaultFont
        | Some data \<Rightarrow> FreeTypeFont ''arial.ttf'' pt data)"
  by (simp add: ImageFont_truetype_def ImageFont_load_default_def split: option.splits)

lemma hq_after_gradient_emits:
  assumes "32 \<le> r"
  shows "\<exists>ds. hq_after_gradient w c r d = Inr (emits d
      (ds @ [Text (c + 122, c - 118) ''1C'' (0, 0, 0, 100)
               (case fonts w ''arial.ttf'' of None \<Rightarrow> DefaultFont
                | Some data \<Rightarrow> FreeTypeFont ''arial.ttf'' 40 data) ''mm'',
             Text (c + 120, c - 120) ''1C'' (255, 255, 255, 255)
               (case fonts w ''arial.ttf'' of None \<Rightarrow> DefaultFont
                | Some data \<Rightarrow> FreeTypeFont ''arial.ttf'' 40 data) ''mm'']))"
proof -
  let ?f = "case fonts w ''arial.ttf'' of None \<Rightarrow> DefaultFont
                | Some data \<Rightarrow> FreeTypeFont ''arial.ttf'' 40 data"
  have "\<exists>ds. hq_after_gradient w c r d
      = and_then (text_draw (emits d ds) (c + 120 + 2, c - 120 + 2) ''1C'' (0, 0, 0, 100) ?f ''mm'')
          (\<lambda>draw. text_draw draw (c + 120, c - 120) ''1C'' (255, 255, 255, 255) ?f ''mm'')"
    unfolding hq_after_gradient_def Let_def font_cases
    using assms by (simp add: paint_emits del: text_draw_emits) blast
  then obtain ds where "hq_after_gradient w c r d
      = and_then (text_draw (emits d ds) (c + 120 + 2, c - 120 + 2) ''1C'' (0, 0, 0, 100) ?f ''mm'')
          (\<lambda>draw. text_draw draw (c + 120, c - 120) ''1C'' (255, 255, 255, 255) ?f ''mm'')"
    by blast
  then have "hq_after_gradient w c r d = Inr (emits d
      (ds @ [Text (c + 122, c - 118) ''1C'' (0, 0, 0, 100) ?f ''mm'',
             Text (c + 120, c - 120) ''1C'' (255, 255, 255, 255) ?f ''mm'']))"
    by (simp add: text_draw_emits emits_emits)
  then show ?thesis by blast
qed

lemma hq_after_gradient_raises:
  assumes "r < 32"
  shows "hq_after_gradient w c r d = Inl (ValueError ''x1 must be greater than or equal to x0'')"
  unfolding hq_after_gradient_def Let_def
  using assms by (simp add: create_smooth_circle_raises)

lemma hq_paint_unfold:
  assumes "0 \<le> S"
  shows "hq_paint w S
           = and_then (hq_gradient (S * 4 div 2) (S * 4 div 2 - 32) 50 (canvas (S * 4)))
               (hq_after_gradient w (S * 4 div 2) (S * 4 div 2 - 32))"
  unfolding hq_paint_def Let_def
  using assms Image_new_canvas [of "S * 4"
      "\<lambda>d. and_then (hq_gradient (S * 4 div 2) (S * 4 div 2 - 32) 50 d)
               (hq_after_gradient w (S * 4 div 2) (S * 4 div 2 - 32))"]
  by simp

lemma hq_paint_ok:
  assumes "32 \<le> S"
  shows "\<exists>ds. hq_paint w S = Inr (emits (canvas (S * 4))
      (ds @ [Text (2 * S + 122, 2 * S - 118) ''1C'' (0, 0, 0, 100)
               (case fonts w ''arial.ttf'' of None \<Rightarrow> DefaultFont
                | Some data \<Rightarrow> FreeTypeFont ''arial.ttf'' 40 data) ''mm'',
             Text (2 * S + 120, 2 * S - 120) ''1C'' (255, 255, 255, 255)
               (case fonts w ''arial.ttf'' of None \<Rightarrow> DefaultFont
                | Some data \<Rightarrow> FreeTypeFont ''arial.ttf'' 40 data) ''mm'']))"
proof -
  let ?f = "case fonts w ''arial.ttf'' of None \<Rightarrow> DefaultFont
                | Some data \<Rightarrow> FreeTypeFont ''arial.ttf'' 40 data"
  have S0: "0 \<le> S" and r: "32 \<le> S * 4 div 2 - 32"
    using assms by simp_all
  obtain rs where g: "hq_gradient (S * 4 div 2) (S * 4 div 2 - 32) 50 (canvas (S * 4))
      = Inr (emits (canvas (S * 4)) rs)"
    using hq_gradient_emits by blast
  obtain ds where ds: "hq_after_gradient w (S * 4 div 2) (S * 4 div 2 - 32) (emits (canvas (S * 4)) rs)
      = Inr (emits (emits (canvas (S * 4)) rs)
          (ds @ [Text (S * 4 div 2 + 122, S * 4 div 2 - 118) ''1C'' (0, 0, 0, 100) ?f ''mm'',
                 Text (S * 4 div 2 + 120, S * 4 div 2 - 120) ''1C'' (255, 255, 255, 255) ?f ''mm'']))"
    using hq_after_gradient_emits [OF r] by blast
  have "hq_paint w S = Inr (emits (canvas (S * 4))
          ((rs @ ds) @ [Text (S * 4 div 2 + 122, S * 4 div 2 - 118) ''1C'' (0, 0, 0, 100) ?f ''mm'',
                 Text (S * 4 div 2 + 120, S * 4 div 2 - 120) ''1C'' (255, 255, 255, 255) ?f ''mm'']))"
    unfolding hq_paint_unfold [OF S0] g and_then_simps ds emits_emits by simp
  then have "hq_paint w S = Inr (emits (canvas (S * 4))
          ((rs @ ds) @ [Text (2 * S + 122, 2 * S - 118) ''1C'' (0, 0, 0, 100) ?f ''mm'',
                 Text (2 * S + 120, 2 * S - 120) ''1C'' (255, 255, 255, 255) ?f ''mm'']))"
    by simp
  then show ?thesis by blast
qed

lemma hq_paint_raises:
  assumes "S < 32"
  shows "\<exists>e. hq_paint w S = Inl (ValueError e)"
proof (cases "0 \<le> S")
  case True
  have "S * 4 div 2 - 32 < 32" using assms by simp
  then show ?thesis
    unfolding hq_paint_unfold [OF True] hq_gradient_emits and_then_simps
    by (simp add: hq_after_gradient_raises)
next
  case False
  then have "S * 4 < 0" by simp
  then show ?thesis
    unfolding hq_paint_def Let_def by (simp add: Image_new_raises)
qed

lemma create_hq_bsl_logo_unfold:
  "create_hq_bsl_logo w S =
     and_then (hq_paint w S) (\<lambda>draw.
       and_then (Image_resize (d_image draw) (S, S) LANCZOS) (\<lambda>img.
         Inr (Image_filter img (UnsharpMask (1 / 2) 120 2))))"
  by (simp add: create_hq_bsl_logo_def)

lemma create_hq_bsl_logo_raises:
  assumes "S < 32"
  shows "\<exists>e. create_hq_bsl_logo w S = Inl (ValueError e)"
  using hq_paint_raises [OF assms, of w] by (auto simp: create_hq_bsl_logo_unfold)

lemma create_hq_bsl_logo_ok:
  assumes "32 \<le> S" "hq_paint w S = Inr d"
  shows "create_hq_bsl_logo w S
           = Inr ((d_image d)\<lparr>im_size := (S, S),
                              im_ops := im_ops (d_image d)
                                          @ [Resize (S, S) LANCZOS, Filter (UnsharpMask (1 / 2) 120 2)]\<rparr>)"
  using assms by (simp add: create_hq_bsl_logo_unfold Image_filter_def)

lemma simplified_paint_ok:
  assumes "4 \<le> S"
  shows "simplified_paint S = Inr (emits (canvas S)
     [Ellipse (2, 2, S - 2, S - 2) (Some (206, 66, 43, 255)) None 1,
      Rectangle (S div 2 div 2, S div 2 div 2,
                 S div 2 div 2 + max 1 (S div 16), S div 2 + S div 2 div 2)
        (Some (255, 255, 255, 255)) None 1,
      Rectangle (S div 2 + S div 2 div 2, S div 2 div 2,
                 S div 2 + S div 2 div 2 + max 1 (S div 16), S div 2 + S div 2 div 2)
        (Some (255, 255, 255, 255)) None 1,
      Ellipse (S div 2 - max 1 (S div 8), S div 2 - max 1 (S div 8),
               S div 2 + max 1 (S div 8), S div 2 + max 1 (S div 8))
        (Some (0, 122, 204, 255)) None 1])"
proof -
  have "0 \<le> S" "0 \<le> S div 2" using assms by simp_all
  then show ?thesis
    unfolding simplified_paint_def Let_def
    using assms by (simp add: paint_emits Image_new_ok Draw_canvas)
qed

lemma simplified_paint_raises:
  assumes "S < 4"
  shows "\<exists>e. simplified_paint S = Inl (ValueError e)"
proof (cases "0 \<le> S")
  case True
  then show ?thesis
    unfolding simplified_paint_def Let_def
    using assms by (simp add: Image_new_ok Draw_canvas ellipse_raises)
next
  case False
  then show ?thesis
    unfolding simplified_paint_def by (simp add: Image_new_raises)
qed

lemma create_simplified_logo_ok:
  assumes "4 \<le> S"
  shows "\<exists>img. create_simplified_logo S = Inr img \<and> im_size img = (S, S) \<and> im_mode img = ''RGBA''
       \<and> im_ops img =
           [Draw (Ellipse (2, 2, S - 2, S - 2) (Some (206, 66, 43, 255)) None 1),
            Draw (Rectangle (S div 2 div 2, S div 2 div 2,
                             S div 2 div 2 + max 1 (S div 16), S div 2 + S div 2 div 2)
                    (Some (255, 255, 255, 255)) None 1),
            Draw (Rectangle (S div 2 + S div 2 div 2, S div 2 div 2,
                             S div 2 + S div 2 div 2 + max 1 (S div 16), S div 2 + S div 2 div 2)
                    (Some (255, 255, 255, 255)) None 1),
            Draw (Ellipse (S div 2 - max 1 (S div 8), S div 2 - max 1 (S div 8),
                           S div 2 + max 1 (S div 8), S div 2 + max 1 (S div 8))
                    (Some (0, 122, 204, 255)) None 1)]"
  by (simp add: create_simplified_logo_def simplified_paint_ok [OF assms])

lemma create_simplified_logo_raises:
  assumes "S < 4"
  shows "\<exists>e. create_simplified_logo S = Inl (ValueError e)"
  using simplified_paint_raises [OF assms] by (auto simp: create_simplified_logo_def)

lemma logo_paint_ok:
  assumes "32 \<le> S"
  shows "\<exists>ds. logo_paint w S = Inr (emits (canvas S)
      (ds @ [Text (S div 2 + 30, S div 2 - 30) ''1C'' (255, 255, 255, 255)
               (case fonts w ''arial.ttf'' of None \<Rightarrow> DefaultFont
                | Some data \<Rightarrow> FreeTypeFont ''arial.ttf'' 10 data) ''mm'']))"
proof -
  let ?f = "case fonts w ''arial.ttf'' of None \<Rightarrow> DefaultFont
                | Some data \<Rightarrow> FreeTypeFont ''arial.ttf'' 10 data"
  have S0: "0 \<le> S" and r: "16 \<le> S div 2"
    using assms by simp_all
  have "\<exists>ds. logo_paint w S
      = text_draw (emits (canvas S) ds) (S div 2 + 30, S div 2 - 30) ''1C'' (255, 255, 255, 255) ?f ''mm''"
    unfolding logo_paint_def Let_def font_cases
    using S0 r
    by (simp add: paint_emits Image_new_ok Draw_canvas del: text_draw_emits) blast
  then obtain ds where "logo_paint w S
      = text_draw (emits (canvas S) ds) (S div 2 + 30, S div 2 - 30) ''1C'' (255, 255, 255, 255) ?f ''mm''"
    by blast
  then have "logo_paint w S = Inr (emits (canvas S)
      (ds @ [Text (S div 2 + 30, S div 2 - 30) ''1C'' (255, 255, 255, 255) ?f ''mm'']))"
    by (simp add: text_draw_emits emits_emits)
  then show ?thesis by blast
qed

lemma logo_paint_raises:
  assumes "S < 32"
  shows "\<exists>e. logo_paint w S = Inl (ValueError e)"
proof (cases "0 \<le> S")
  case True
  have "S div 2 - 8 - 8 < 0" using assms by simp
  then have "S div 2 + (S div 2 - 8 - 8) < S div 2 - (S div 2 - 8 - 8)" by simp
  then show ?thesis
    unfolding logo_paint_def Let_def
    using True by (simp add: Image_new_ok Draw_canvas logo_gradient_emits ellipse_raises)
next
  case False
  then show ?thesis
    unfolding logo_paint_def by (simp add: Image_new_raises)
qed

lemma create_bsl_logo_raises:
  assumes "S < 32"
  shows "\<exists>e. create_bsl_logo w S = Inl (ValueError e)"
  using logo_paint_raises [OF assms, of w] by (auto simp: create_bsl_logo_def)

lemma hq_paint_fonts_only:
  assumes "fonts w1 ''arial.ttf'' = fonts w2 ''arial.ttf''"
  shows "hq_paint w1 S = hq_paint w2 S"
  unfolding hq_paint_def hq_after_gradient_def Let_def font_cases using assms by simp

lemma logo_for_size_fonts:
  assumes "fonts w1 ''arial.ttf'' = fonts w2 ''arial.ttf''"
  shows "logo_for_size w1 sz = logo_for_size w2 sz"
  using hq_paint_fonts_only [OF assms]
  by (simp add: logo_for_size_def create_hq_bsl_logo_def)

lemma create_hq_bsl_logo_returns:
  assumes "32 \<le> S"
  shows "\<exists>img. create_hq_bsl_logo w S = Inr img"
proof -
  obtain d where "hq_paint w S = Inr d"
    using hq_paint_ok [OF assms] by blast
  then show ?thesis
    using create_hq_bsl_logo_ok [OF assms] by blast
qed

lemma create_bsl_logo_returns:
  assumes "32 \<le> S"
  shows "\<exists>img. create_bsl_logo w S = Inr img"
  using logo_paint_ok [OF assms, of w] by (auto simp: create_bsl_logo_def)

lemma logo_for_size_returns:
  assumes "4 \<le> sz" "sz \<le> 24 \<or> 32 \<le> sz"
  shows "\<exists>img. logo_for_size w sz = Inr img"
proof (cases "sz \<le> 24")
  case True
  then show ?thesis
    using create_simplified_logo_ok [OF assms(1)] by (auto simp: logo_for_size_def)
next
  case False
  then have "32 \<le> sz" using assms(2) by simp
  then show ?thesis
    using False create_hq_bsl_logo_returns [of sz w] by (simp add: logo_for_size_def)
qed

section \<open>The gradient loops\<close>

lemma logo_gradient_rings:
  "logo_gradient c r d =
     Inr (emits d (map (\<lambda>i. Ellipse (c - r + i, c - r + i, c + r - i, c + r - i)
                               (Some (logo_ring_color r i)) None 1)
                    (map int [0 ..< nat r])))"
  unfolding logo_gradient_emits by (simp add: comp_def)

lemma logo_gradient_empty: "r \<le> 0 \<Longrightarrow> logo_gradient c r d = Inr d"
  by (simp add: logo_gradient_rings emits_Nil)

lemma hq_gradient_body_skip:
  "current_radius r gs i \<le> 0 \<Longrightarrow> hq_gradient_body c r gs i d = Inr d"
  by (simp add: hq_gradient_body_def)

lemma hq_gradient_body_draw:
  "0 < current_radius r gs i \<Longrightarrow>
   hq_gradient_body c r gs i d =
     Inr (emits d [Ellipse (c - current_radius r gs i, c - current_radius r gs i,
                            c + current_radius r gs i, c + current_radius r gs i)
                     (Some (hq_ring_color gs i)) None 1])"
  by (simp add: hq_gradient_body_emits)

section \<open>Writing the files\<close>

lemma print_simps [simp]:
  "fonts (print w s) = fonts w"
  "writable (print w s) = writable w"
  "files (print w s) = files w"
  "save_calls (print w s) = save_calls w"
  "stdout (print w s) = stdout w @ [s]"
  by (simp_all add: print_def)

lemma fold_print_simps [simp]:
  "fonts (fold (\<lambda>x w. print w (f x)) xs w) = fonts w"
  "writable (fold (\<lambda>x w. print w (f x)) xs w) = writable w"
  "files (fold (\<lambda>x w. print w (f x)) xs w) = files w"
  "save_calls (fold (\<lambda>x w. print w (f x)) xs w) = save_calls w"
  by (induction xs arbitrary: w) simp_all

lemma Image_save_ok:
  "writable w p \<Longrightarrow>
   Image_save w im p fmt opt
     = (Inr (), w\<lparr>save_calls := save_calls w @ [p], files := (files w)(p \<mapsto> (im, fmt, opt))\<rparr>)"
  by (simp add: Image_save_def Let_def)

lemma Image_save_fail:
  "\<not> writable w p \<Longrightarrow>
   Image_save w im p fmt opt = (Inl (OSError p), w\<lparr>save_calls := save_calls w @ [p]\<rparr>)"
  by (simp add: Image_save_def Let_def)

lemma fail_stop_done:
  assumes "save_calls w' = save_calls w" "files w' = files w" "writable w' = writable w"
    "fonts w' = fonts w"
  shows "fail_stop w [] (Inr x, w')"
  using assms by (simp add: fail_stop_def raised_def)

lemma fail_stop_fail:
  assumes "\<not> writable w p" "save_calls w' = save_calls w @ [p]" "files w' = files w"
    "writable w' = writable w" "fonts w' = fonts w"
  shows "fail_stop w (p # ps) (Inl (OSError p), w')"
  using assms by (simp add: fail_stop_def raised_def)

lemma fail_stop_step:
  assumes "writable w p" "save_calls w3 = save_calls w @ [p]" "files w3 = (files w)(p \<mapsto> v)"
    "writable w3 = writable w" "fonts w3 = fonts w" "fail_stop w3 ps r"
  shows "fail_stop w (p # ps) r"
proof -
  let ?tw = "takeWhile (writable w) ps"
  from assms have sc: "save_calls (snd r)
        = save_calls w @ (p # ?tw) @ take 1 (dropWhile (writable w) ps)"
    by (simp add: fail_stop_def)
  from assms have ra: "raised (fst r)
          = (case dropWhile (writable w) ps of [] \<Rightarrow> None | p # rest \<Rightarrow> Some (OSError p))"
    by (simp add: fail_stop_def)
  from assms have a: "\<forall>q \<in> set ?tw. files (snd r) q \<noteq> None"
    and b: "\<forall>q. q \<notin> set ?tw \<longrightarrow> files (snd r) q = files w3 q"
    and c: "writable (snd r) = writable w" "fonts (snd r) = fonts w"
    by (simp_all add: fail_stop_def)
  have p: "files (snd r) p \<noteq> None"
  proof (cases "p \<in> set ?tw")
    case True then show ?thesis using a by blast
  next
    case False then show ?thesis using b assms(3) by simp
  qed
  have others: "\<forall>q. q \<notin> set (p # ?tw) \<longrightarrow> files (snd r) q = files w q"
    using b assms(3) by simp
  show ?thesis
    unfolding fail_stop_def using assms(1) sc ra a p others c by simp
qed

lemma fail_stop_cont:
  assumes "fail_stop w ps r"
    and "\<And>x w'. save_calls (k x w') = save_calls w' \<and> files (k x w') = files w'
            \<and> writable (k x w') = writable w' \<and> fonts (k x w') = fonts w'"
  shows "fail_stop w ps (case r of (Inl e, w') \<Rightarrow> (Inl e, w') | (Inr x, w') \<Rightarrow> (Inr y, k x w'))"
proof (cases r)
  case (Pair res w')
  show ?thesis
  proof (cases res)
    case (Inl e)
    with Pair assms(1) show ?thesis by (simp add: fail_stop_def raised_def)
  next
    case (Inr x)
    with Pair assms show ?thesis by (simp add: fail_stop_def raised_def)
  qed
qed

lemma logo_for_size_print: "logo_for_size (print w s) sz = logo_for_size w sz"
  by (rule logo_for_size_fonts) simp

lemma create_hq_bsl_logo_print: "create_hq_bsl_logo (print w s) S = create_hq_bsl_logo w S"
  using hq_paint_fonts_only [of "print w s" w S] by (simp add: create_hq_bsl_logo_def)

lemma icons_loop_fail_stop:
  assumes "\<forall>(sz, suffix) \<in> set xs. 4 \<le> sz \<and> (sz \<le> 24 \<or> 32 \<le> sz)"
  shows "fail_stop w (map (\<lambda>(sz, suffix). icon_filename suffix) xs) (icons_loop xs acc w)"
  using assms
proof (induction xs arbitrary: acc w)
  case Nil
  show ?case by (simp add: fail_stop_done)
next
  case (Cons x xs)
  obtain sz suffix where x: "x = (sz, suffix)" by (cases x)
  let ?p = "icon_filename suffix"
  let ?w1 = "print w (''Creating '' @ str sz @ ''x'' @ str sz @ '' icon...'')"
  obtain logo where logo: "logo_for_size w sz = Inr logo"
    using Cons.prems logo_for_size_returns [of sz w] by (auto simp: x)
  have rest: "\<forall>(sz, suffix) \<in> set xs. 4 \<le> sz \<and> (sz \<le> 24 \<or> 32 \<le> sz)"
    using Cons.prems by simp
  show ?case
  proof (cases "writable w ?p")
    case False
    then have "icons_loop ((sz, suffix) # xs) acc w
        = (Inl (OSError ?p), ?w1\<lparr>save_calls := save_calls ?w1 @ [?p]\<rparr>)"
      by (simp add: Let_def logo logo_for_size_print icon_filename_def Image_save_fail)
    then show ?thesis
      using False by (simp add: x fail_stop_fail)
  next
    case True
    let ?w2 = "?w1\<lparr>save_calls := save_calls ?w1 @ [?p],
                    files := (files ?w1)(?p \<mapsto> (logo, ''PNG'', True))\<rparr>"
    let ?w3 = "print ?w2 (''  Saved: '' @ ?p)"
    have run: "icons_loop ((sz, suffix) # xs) acc w
                 = icons_loop xs (acc @ [str sz @ ''x'' @ str sz @ '' -> '' @ ?p]) ?w3"
      using True by (simp add: Let_def logo logo_for_size_print icon_filename_def Image_save_ok)
    have "fail_stop ?w3 (map (\<lambda>(sz, suffix). icon_filename suffix) xs)
            (icons_loop xs (acc @ [str sz @ ''x'' @ str sz @ '' -> '' @ ?p]) ?w3)"
      using rest by (rule Cons.IH)
    then have "fail_stop w (?p # map (\<lambda>(sz, suffix). icon_filename suffix) xs)
            (icons_loop xs (acc @ [str sz @ ''x'' @ str sz @ '' -> '' @ ?p]) ?w3)"
      by (rule fail_stop_step [rotated -1]) (use True in simp_all)
    then show ?thesis
      by (simp only: x run list.map prod.case)
  qed
qed

lemma logo_sizes_loop_fail_stop:
  assumes "\<forall>sz \<in> set xs. 32 \<le> sz"
  shows "fail_stop w (map logo_filename xs) (logo_sizes_loop xs w)"
  using assms
proof (induction xs arbitrary: w)
  case Nil
  show ?case by (simp add: fail_stop_done)
next
  case (Cons sz xs)
  let ?p = "logo_filename sz"
  obtain logo where logo: "create_bsl_logo w sz = Inr logo"
    using Cons.prems create_bsl_logo_returns [of sz w] by auto
  have rest: "\<forall>sz \<in> set xs. 32 \<le> sz"
    using Cons.prems by simp
  show ?case
  proof (cases "writable w ?p")
    case False
    then have "logo_sizes_loop (sz # xs) w = (Inl (OSError ?p), w\<lparr>save_calls := save_calls w @ [?p]\<rparr>)"
      by (simp add: Let_def logo logo_filename_def Image_save_fail)
    then show ?thesis
      using False by (simp add: fail_stop_fail)
  next
    case True
    let ?w2 = "w\<lparr>save_calls := save_calls w @ [?p],
                  files := (files w)(?p \<mapsto> (logo, ''PNG'', False))\<rparr>"
    let ?w3 = "print ?w2 (''Logo '' @ str sz @ ''x'' @ str sz @ '' created'')"
    have run: "logo_sizes_loop (sz # xs) w = logo_sizes_loop xs ?w3"
      using True by (simp add: Let_def logo logo_filename_def Image_save_ok)
    have "fail_stop ?w3 (map logo_filename xs) (logo_sizes_loop xs ?w3)"
      using rest by (rule Cons.IH)
    then have "fail_stop w (?p # map logo_filename xs) (logo_sizes_loop xs ?w3)"
      by (rule fail_stop_step [rotated -1]) (use True in simp_all)
    then show ?thesis
      by (simp only: run list.map)
  qed
qed

lemma main_png_fail_stop: "fail_stop w png_script_paths (main_png w)"
proof -
  let ?p = "''vscode-extension/images/bsl-analyzer-logo.png''"
  obtain logo where logo: "create_bsl_logo w 128 = Inr logo"
    using create_bsl_logo_returns [of 128 w] by auto
  show ?thesis
  proof (cases "writable w ?p")
    case False
    then have "main_png w = (Inl (OSError ?p), w\<lparr>save_calls := save_calls w @ [?p]\<rparr>)"
      by (simp add: main_png_def Let_def logo Image_save_fail)
    then show ?thesis
      using False by (simp add: png_script_paths_def fail_stop_fail)
  next
    case True
    let ?w2 = "w\<lparr>save_calls := save_calls w @ [?p],
                  files := (files w)(?p \<mapsto> (logo, ''PNG'', False))\<rparr>"
    let ?w3 = "print ?w2 ''Logo created: vscode-extension/images/bsl-analyzer-logo.png''"
    have run: "main_png w = logo_sizes_loop [32, 64, 256] ?w3"
      using True by (simp add: main_png_def Let_def logo Image_save_ok)
    have "fail_stop ?w3 (map logo_filename [32, 64, 256]) (logo_sizes_loop [32, 64, 256] ?w3)"
      by (rule logo_sizes_loop_fail_stop) simp
    then have "fail_stop w (?p # map logo_filename [32, 64, 256]) (logo_sizes_loop [32, 64, 256] ?w3)"
      by (rule fail_stop_step [rotated -1]) (use True in simp_all)
    then show ?thesis
      by (simp only: run png_script_paths_def)
  qed
qed

lemma sizes_drawable: "\<forall>(sz, suffix) \<in> set sizes. 4 \<le> sz \<and> (sz \<le> 24 \<or> 32 \<le> sz)"
  by (simp add: sizes_def)

lemma create_optimized_icons_fail_stop:
  "fail_stop w (map (\<lambda>(sz, suffix). icon_filename suffix) sizes) (create_optimized_icons w)"
  unfolding create_optimized_icons_def using sizes_drawable by (rule icons_loop_fail_stop)

lemma main_hq_fail_stop: "fail_stop w hq_script_paths (main_hq w)"
proof -
  let ?p = "''vscode-extension/images/bsl-analyzer-logo.png''"
  let ?w1 = "print w ''Creating high-quality BSL Analyzer icons...''"
  obtain logo where logo: "create_hq_bsl_logo w 128 = Inr logo"
    using create_hq_bsl_logo_returns [of 128 w] by auto
  show ?thesis
  proof (cases "writable w ?p")
    case False
    then have "main_hq w = (Inl (OSError ?p), ?w1\<lparr>save_calls := save_calls ?w1 @ [?p]\<rparr>)"
      by (simp add: main_hq_def Let_def logo create_hq_bsl_logo_print Image_save_fail)
    then show ?thesis
      using False by (simp add: hq_script_paths_def fail_stop_fail)
  next
    case True
    let ?w2 = "?w1\<lparr>save_calls := save_calls ?w1 @ [?p],
                    files := (files ?w1)(?p \<mapsto> (logo, ''PNG'', True))\<rparr>"
    let ?w3 = "print ?w2 ''Main logo created: bsl-analyzer-logo.png''"
    let ?k = "\<lambda>icons w.
        print (print (print (print (print
          (fold (\<lambda>icon w. print w (''  - '' @ icon)) icons
            (print (print w (CHR 0x0A # ''Successfully created ''
                               @ str (int (length icons) + 1) @ '' high-quality icons:''))
               ''  - bsl-analyzer-logo.png (128x128)''))
          (CHR 0x0A # ''Features:''))
          ''  + High-quality anti-aliasing'')
          ''  + Smooth gradients and shadows'')
          ''  + Optimized for different sizes'')
          ''  + Professional appearance in VSCode''"
    have run: "main_hq w
        = (case create_optimized_icons ?w3 of
             (Inl e, w') \<Rightarrow> (Inl e, w')
           | (Inr icons, w') \<Rightarrow> (Inr (), ?k icons w'))"
      using True
      by (simp add: main_hq_def Let_def logo create_hq_bsl_logo_print Image_save_ok
            split: prod.splits sum.splits)
    have "fail_stop ?w3 (map (\<lambda>(sz, suffix). icon_filename suffix) sizes) (create_optimized_icons ?w3)"
      by (rule create_optimized_icons_fail_stop)
    then have "fail_stop ?w3 (map (\<lambda>(sz, suffix). icon_filename suffix) sizes)
        (case create_optimized_icons ?w3 of
             (Inl e, w') \<Rightarrow> (Inl e, w')
           | (Inr icons, w') \<Rightarrow> (Inr (), ?k icons w'))"
      by (rule fail_stop_cont) simp
    then have "fail_stop w (?p # map (\<lambda>(sz, suffix). icon_filename suffix) sizes)
        (case create_optimized_icons ?w3 of
             (Inl e, w') \<Rightarrow> (Inl e, w')
           | (Inr icons, w') \<Rightarrow> (Inr (), ?k icons w'))"
      by (rule fail_stop_step [rotated -1]) (use True in simp_all)
    then show ?thesis
      by (simp only: run hq_script_paths_def)
  qed
qed

lemma fail_stop_raise:
  assumes "fail_stop w ps r" "dropWhile (writable w) ps = p # rest"
  shows "fst r = Inl (OSError p)"
  using assms by (cases "fst r") (simp_all add: fail_stop_def raised_def)

lemma icon_filename_inject [simp]: "icon_filename a = icon_filename b \<longleftrightarrow> a = b"
  by (simp add: icon_filename_def)


section \<open>What a generator returns\<close>

lemma hq_paint_shape:
  assumes "hq_paint w S = Inr d"
  shows "32 \<le> S \<and> im_size (d_image d) = (4 * S, 4 * S) \<and> im_mode (d_image d) = ''RGBA''
       \<and> (\<exists>ds. im_ops (d_image d) = map Draw
             (ds @ [Text (2 * S + 122, 2 * S - 118) ''1C'' (0, 0, 0, 100)
                      (case fonts w ''arial.ttf'' of None \<Rightarrow> DefaultFont
                       | Some data \<Rightarrow> FreeTypeFont ''arial.ttf'' 40 data) ''mm'',
                    Text (2 * S + 120, 2 * S - 120) ''1C'' (255, 255, 255, 255)
                      (case fonts w ''arial.ttf'' of None \<Rightarrow> DefaultFont
                       | Some data \<Rightarrow> FreeTypeFont ''arial.ttf'' 40 data) ''mm'']))"
proof -
  have S: "32 \<le> S"
  proof (rule ccontr)
    assume "\<not> 32 \<le> S"
    then have "S < 32" by simp
    from hq_paint_raises [OF this, of w] assms show False by auto
  qed
  from hq_paint_ok [OF S, of w] assms obtain ds where
    "d = emits (canvas (S * 4))
      (ds @ [Text (2 * S + 122, 2 * S - 118) ''1C'' (0, 0, 0, 100)
               (case fonts w ''arial.ttf'' of None \<Rightarrow> DefaultFont
                | Some data \<Rightarrow> FreeTypeFont ''arial.ttf'' 40 data) ''mm'',
             Text (2 * S + 120, 2 * S - 120) ''1C'' (255, 255, 255, 255)
               (case fonts w ''arial.ttf'' of None \<Rightarrow> DefaultFont
                | Some data \<Rightarrow> FreeTypeFont ''arial.ttf'' 40 data) ''mm''])"
    by auto
  then show ?thesis
    using S by auto
qed

lemma create_hq_bsl_logo_shape:
  assumes "create_hq_bsl_logo w S = Inr img"
  shows "32 \<le> S \<and> im_size img = (S, S) \<and> im_mode img = ''RGBA''
       \<and> (\<exists>ds. im_ops img = map Draw
             (ds @ [Text (2 * S + 122, 2 * S - 118) ''1C'' (0, 0, 0, 100)
                      (case fonts w ''arial.ttf'' of None \<Rightarrow> DefaultFont
                       | Some data \<Rightarrow> FreeTypeFont ''arial.ttf'' 40 data) ''mm'',
                    Text (2 * S + 120, 2 * S - 120) ''1C'' (255, 255, 255, 255)
                      (case fonts w ''arial.ttf'' of None \<Rightarrow> DefaultFont
                       | Some data \<Rightarrow> FreeTypeFont ''arial.ttf'' 40 data) ''mm''])
             @ [Resize (S, S) LANCZOS, Filter (UnsharpMask (1 / 2) 120 2)])"
proof -
  obtain d where d: "hq_paint w S = Inr d"
    using assms by (cases "hq_paint w S") (simp_all add: create_hq_bsl_logo_unfold)
  note sh = hq_paint_shape [OF d]
  then have S: "32 \<le> S" by simp
  have "img = (d_image d)\<lparr>im_size := (S, S),
                              im_ops := im_ops (d_image d)
                                          @ [Resize (S, S) LANCZOS, Filter (UnsharpMask (1 / 2) 120 2)]\<rparr>"
    using create_hq_bsl_logo_ok [OF S d] assms by simp
  then show ?thesis
    using sh by auto
qed

lemma logo_paint_shape:
  assumes "logo_paint w S = Inr d"
  shows "32 \<le> S \<and> im_size (d_image d) = (S, S) \<and> im_mode (d_image d) = ''RGBA''
       \<and> (\<exists>ds. im_ops (d_image d) = map Draw
             (ds @ [Text (S div 2 + 30, S div 2 - 30) ''1C'' (255, 255, 255, 255)
                      (case fonts w ''arial.ttf'' of None \<Rightarrow> DefaultFont
                       | Some data \<Rightarrow> FreeTypeFont ''arial.ttf'' 10 data) ''mm'']))"
proof -
  have S: "32 \<le> S"
  proof (rule ccontr)
    assume "\<not> 32 \<le> S"
    then have "S < 32" by simp
    from logo_paint_raises [OF this, of w] assms show False by auto
  qed
  from logo_paint_ok [OF S, of w] assms obtain ds where
    "d = emits (canvas S)
      (ds @ [Text (S div 2 + 30, S div 2 - 30) ''1C'' (255, 255, 255, 255)
               (case fonts w ''arial.ttf'' of None \<Rightarrow> DefaultFont
                | Some data \<Rightarrow> FreeTypeFont ''arial.ttf'' 10 data) ''mm''])"
    by auto
  then show ?thesis
    using S by auto
qed

lemma create_bsl_logo_shape:
  assumes "create_bsl_logo w S = Inr img"
  shows "32 \<le> S \<and> im_size img = (S, S) \<and> im_mode img = ''RGBA''
       \<and> (\<exists>ds. im_ops img = map Draw
             (ds @ [Text (S div 2 + 30, S div 2 - 30) ''1C'' (255, 255, 255, 255)
                      (case fonts w ''arial.ttf'' of None \<Rightarrow> DefaultFont
                       | Some data \<Rightarrow> FreeTypeFont ''arial.ttf'' 10 data) ''mm'']))"
proof -
  obtain d where d: "logo_paint w S = Inr d" and img: "img = d_image d"
    using assms by (cases "logo_paint w S") (auto simp add: create_bsl_logo_def)
  show ?thesis
    using logo_paint_shape [OF d] img by simp
qed


lemma small_size_raises:
  assumes "0 \<le> S" "S < 32"
  shows "create_hq_bsl_logo w S = Inl (ValueError ''x1 must be greater than or equal to x0'')"
    and "create_bsl_logo w S = Inl (ValueError ''x1 must be greater than or equal to x0'')"
proof -
  have "S * 4 div 2 - 32 < 32" using assms by simp
  then have "hq_paint w S = Inl (ValueError ''x1 must be greater than or equal to x0'')"
    unfolding hq_paint_unfold [OF assms(1)] hq_gradient_emits and_then_simps
    by (simp add: hq_after_gradient_raises)
  then show "create_hq_bsl_logo w S = Inl (ValueError ''x1 must be greater than or equal to x0'')"
    by (simp add: create_hq_bsl_logo_unfold)
  have "S div 2 - 8 - 8 < 0" using assms by simp
  then have "S div 2 + (S div 2 - 8 - 8) < S div 2 - (S div 2 - 8 - 8)" by simp
  then have "logo_paint w S = Inl (ValueError ''x1 must be greater than or equal to x0'')"
    unfolding logo_paint_def Let_def
    using assms(1) by (simp add: Image_new_ok Draw_canvas logo_gradient_emits ellipse_raises)
  then show "create_bsl_logo w S = Inl (ValueError ''x1 must be greater than or equal to x0'')"
    by (simp add: create_bsl_logo_def)
qed

lemma tiny_size_raises:
  assumes "0 \<le> S" "S < 4"
  shows "create_simplified_logo S = Inl (ValueError ''x1 must be greater than or equal to x0'')"
  unfolding create_simplified_logo_def simplified_paint_def Let_def
  using assms by (simp add: Image_new_ok Draw_canvas ellipse_raises)

section \<open>The bracket point lists\<close>

lemma left_right_mirror:
  "list_all2 (\<lambda>l r. r = (2 * c - fst l, snd l)) (left_points c) (right_points c)"
  by (simp add: right_points_def left_points_def)

lemma bracket_left_right_mirror:
  "list_all2 (\<lambda>l r. r = (2 * c - fst l, snd l)) (bracket_points_left c) (bracket_points_right c)"
  by (simp add: bracket_points_left_def bracket_points_right_def)

section \<open>The claims\<close>

text \<open>
  C1, as amended. For every size \<open>S\<close> of at least 32, \<open>create_hq_bsl_logo\<close> and
  \<open>create_bsl_logo\<close> return an RGBA image whose pixel dimensions are exactly \<open>S\<close> by \<open>S\<close>,
  and for every \<open>S\<close> of at least 4 so does \<open>create_simplified_logo\<close>. For a smaller size
  the generator passes the library an ellipse whose box has \<open>x1 < x0\<close> (the inner contour
  of the two detailed generators, the disk of the simplified one), or a negative image
  size, and ends with the library's \<open>ValueError\<close>: no image is returned.
\<close>

theorem generators_return_requested_size:
  "(32 \<le> S \<longrightarrow>
      (\<exists>img. create_hq_bsl_logo w S = Inr img \<and> im_size img = (S, S) \<and> im_mode img = ''RGBA''))
   \<and> (4 \<le> S \<longrightarrow>
      (\<exists>img. create_simplified_logo S = Inr img \<and> im_size img = (S, S) \<and> im_mode img = ''RGBA''))
   \<and> (32 \<le> S \<longrightarrow>
      (\<exists>img. create_bsl_logo w S = Inr img \<and> im_size img = (S, S) \<and> im_mode img = ''RGBA''))
   \<and> (S < 32 \<longrightarrow> (\<exists>e. create_hq_bsl_logo w S = Inl (ValueError e)))
   \<and> (S < 4 \<longrightarrow> (\<exists>e. create_simplified_logo S = Inl (ValueError e)))
   \<and> (S < 32 \<longrightarrow> (\<exists>e. create_bsl_logo w S = Inl (ValueError e)))"
proof -
  have hq: "\<exists>img. create_hq_bsl_logo w S = Inr img \<and> im_size img = (S, S) \<and> im_mode img = ''RGBA''"
    if "32 \<le> S"
    using create_hq_bsl_logo_returns [OF that, of w] create_hq_bsl_logo_shape [of w S] by blast
  have lg: "\<exists>img. create_bsl_logo w S = Inr img \<and> im_size img = (S, S) \<and> im_mode img = ''RGBA''"
    if "32 \<le> S"
    using create_bsl_logo_returns [OF that, of w] create_bsl_logo_shape [of w S] by blast
  have sm: "\<exists>img. create_simplified_logo S = Inr img \<and> im_size img = (S, S) \<and> im_mode img = ''RGBA''"
    if "4 \<le> S"
    using create_simplified_logo_ok [OF that] by blast
  show ?thesis
    using hq lg sm create_hq_bsl_logo_raises [of S w] create_simplified_logo_raises [of S]
      create_bsl_logo_raises [of S w]
    by blast
qed

theorem generators_return_requested_size_witness:
  "(\<exists>img. create_hq_bsl_logo bare_world 32 = Inr img \<and> im_size img = (32, 32)
          \<and> im_mode img = ''RGBA'')
   \<and> (\<exists>img. create_simplified_logo 4 = Inr img \<and> im_size img = (4, 4) \<and> im_mode img = ''RGBA'')
   \<and> (\<exists>img. create_bsl_logo bare_world 32 = Inr img \<and> im_size img = (32, 32)
          \<and> im_mode img = ''RGBA'')
   \<and> (\<exists>e. create_hq_bsl_logo bare_world 31 = Inl (ValueError e))
   \<and> (\<exists>e. create_simplified_logo 3 = Inl (ValueError e))
   \<and> (\<exists>e. create_bsl_logo bare_world 31 = Inl (ValueError e))"
  using generators_return_requested_size [of 32 bare_world]
    generators_return_requested_size [of 4 bare_world]
    generators_return_requested_size [of 31 bare_world]
    generators_return_requested_size [of 3 bare_world]
  by simp

text \<open>
  The claim as stated (an image for every \<open>S > 0\<close>) fails at size 16 for the two detailed
  generators, whose inner contour is then the ellipse \<open>[64, 64, 0, 0]\<close> resp.
  \<open>[16, 16, 0, 0]\<close>, and at size 3 for the simplified one, whose disk is \<open>[2, 2, 1, 1]\<close>.
\<close>

theorem generators_raise_on_small_sizes:
  "(0::int) < 16 \<and> (0::int) < 3
   \<and> create_hq_bsl_logo bare_world 16 = Inl (ValueError ''x1 must be greater than or equal to x0'')
   \<and> create_bsl_logo bare_world 16 = Inl (ValueError ''x1 must be greater than or equal to x0'')
   \<and> create_simplified_logo 3 = Inl (ValueError ''x1 must be greater than or equal to x0'')"
  using small_size_raises [of 16 bare_world] tiny_size_raises [of 3] by simp

text \<open>
  C2. In both generators the right bracket's point list has, at every index, the point of
  the left bracket's list reflected about the vertical line \<open>x = center\<close>: the point
  \<open>(2 * center - x, y)\<close> for the left point \<open>(x, y)\<close>.
\<close>

theorem right_bracket_mirrors_left:
  "length (right_points c) = length (left_points c)
   \<and> (\<forall>i < length (left_points c).
         right_points c ! i = (2 * c - fst (left_points c ! i), snd (left_points c ! i)))
   \<and> length (bracket_points_right c) = length (bracket_points_left c)
   \<and> (\<forall>i < length (bracket_points_left c).
         bracket_points_right c ! i
           = (2 * c - fst (bracket_points_left c ! i), snd (bracket_points_left c ! i)))"
  using left_right_mirror [of c] bracket_left_right_mirror [of c]
  by (simp add: list_all2_conv_all_nth)

theorem right_bracket_mirrors_left_witness:
  "right_points 256 ! 3 = (2 * 256 - fst (left_points 256 ! 3), snd (left_points 256 ! 3))
   \<and> right_points 256 ! 3 = (356, 216)
   \<and> bracket_points_right 64 ! 9
       = (2 * 64 - fst (bracket_points_left 64 ! 9), snd (bracket_points_left 64 ! 9))
   \<and> bracket_points_right 64 ! 9 = (84, 89)"
  using right_bracket_mirrors_left [of 256] right_bracket_mirrors_left [of 64]
  by (simp add: left_points_def right_points_def bracket_points_left_def bracket_points_right_def)






text \<open>
  C5. If loading \<open>arial.ttf\<close> fails, the badge text \<open>1C\<close> is drawn with the built-in
  default font and generation goes on: in every image \<open>create_hq_bsl_logo\<close> returns the
  shadow text and the main text, in the default font, are the last two drawing calls
  before the resize, and in every image \<open>create_bsl_logo\<close> returns the text, in the
  default font, is the last drawing call; for a size of at least 32 both generators return.
\<close>

theorem font_fallback_renders_text:
  assumes "fonts w ''arial.ttf'' = None"
  shows "ImageFont_truetype w ''arial.ttf'' 40 = Inl (OSError ''cannot open resource'')
       \<and> ImageFont_truetype w ''arial.ttf'' 10 = Inl (OSError ''cannot open resource'')
       \<and> (\<forall>img. create_hq_bsl_logo w S = Inr img \<longrightarrow>
            (\<exists>ds. im_ops img
              = map Draw (ds @ [Text (2 * S + 122, 2 * S - 118) ''1C'' (0, 0, 0, 100) DefaultFont ''mm'',
                                Text (2 * S + 120, 2 * S - 120) ''1C'' (255, 255, 255, 255)
                                  DefaultFont ''mm''])
                @ [Resize (S, S) LANCZOS, Filter (UnsharpMask (1 / 2) 120 2)]))
       \<and> (32 \<le> S \<longrightarrow> (\<exists>img. create_hq_bsl_logo w S = Inr img))
       \<and> (\<forall>img. create_bsl_logo w S = Inr img \<longrightarrow>
            (\<exists>ds. im_ops img
              = map Draw (ds @ [Text (S div 2 + 30, S div 2 - 30) ''1C'' (255, 255, 255, 255)
                                  DefaultFont ''mm''])))
       \<and> (32 \<le> S \<longrightarrow> (\<exists>img. create_bsl_logo w S = Inr img))"
proof -
  have 1: "\<forall>img. create_hq_bsl_logo w S = Inr img \<longrightarrow>
            (\<exists>ds. im_ops img
              = map Draw (ds @ [Text (2 * S + 122, 2 * S - 118) ''1C'' (0, 0, 0, 100) DefaultFont ''mm'',
                                Text (2 * S + 120, 2 * S - 120) ''1C'' (255, 255, 255, 255)
                                  DefaultFont ''mm''])
                @ [Resize (S, S) LANCZOS, Filter (UnsharpMask (1 / 2) 120 2)])"
    using create_hq_bsl_logo_shape [of w S] assms by simp
  have 2: "\<forall>img. create_bsl_logo w S = Inr img \<longrightarrow>
            (\<exists>ds. im_ops img
              = map Draw (ds @ [Text (S div 2 + 30, S div 2 - 30) ''1C'' (255, 255, 255, 255)
                                  DefaultFont ''mm'']))"
    using create_bsl_logo_shape [of w S] assms by simp
  have 3: "32 \<le> S \<longrightarrow> (\<exists>img. create_hq_bsl_logo w S = Inr img)"
    using create_hq_bsl_logo_returns [of S w] by blast
  have 4: "32 \<le> S \<longrightarrow> (\<exists>img. create_bsl_logo w S = Inr img)"
    using create_bsl_logo_returns [of S w] by blast
  have 5: "ImageFont_truetype w ''arial.ttf'' 40 = Inl (OSError ''cannot open resource'')"
    "ImageFont_truetype w ''arial.ttf'' 10 = Inl (OSError ''cannot open resource'')"
    using assms by (simp_all add: ImageFont_truetype_def)
  show ?thesis
    using 1 2 3 4 5 by blast
qed

theorem font_fallback_renders_text_witness:
  "fonts bare_world ''arial.ttf'' = None
   \<and> (\<exists>img ds. create_hq_bsl_logo bare_world 128 = Inr img
        \<and> im_ops img
          = map Draw (ds @ [Text (378, 138) ''1C'' (0, 0, 0, 100) DefaultFont ''mm'',
                            Text (376, 136) ''1C'' (255, 255, 255, 255) DefaultFont ''mm''])
            @ [Resize (128, 128) LANCZOS, Filter (UnsharpMask (1 / 2) 120 2)])
   \<and> (\<exists>img ds. create_bsl_logo bare_world 128 = Inr img
        \<and> im_ops img
          = map Draw (ds @ [Text (94, 34) ''1C'' (255, 255, 255, 255) DefaultFont ''mm'']))"
proof -
  have h: "fonts bare_world ''arial.ttf'' = None"
    by (simp add: bare_world_def)
  note t = font_fallback_renders_text [OF h, of 128]
  note hq = t [THEN conjunct2, THEN conjunct2, THEN conjunct1]
  note hq_ret = t [THEN conjunct2, THEN conjunct2, THEN conjunct2, THEN conjunct1]
  note lg = t [THEN conjunct2, THEN conjunct2, THEN conjunct2, THEN conjunct2, THEN conjunct1]
  note lg_ret = t [THEN conjunct2, THEN conjunct2, THEN conjunct2, THEN conjunct2, THEN conjunct2]
  from hq_ret obtain a where a: "create_hq_bsl_logo bare_world 128 = Inr a" by auto
  from lg_ret obtain b where b: "create_bsl_logo bare_world 128 = Inr b" by auto
  from hq a have 1: "\<exists>ds. im_ops a
          = map Draw (ds @ [Text (378, 138) ''1C'' (0, 0, 0, 100) DefaultFont ''mm'',
                            Text (376, 136) ''1C'' (255, 255, 255, 255) DefaultFont ''mm''])
            @ [Resize (128, 128) LANCZOS, Filter (UnsharpMask (1 / 2) 120 2)]"
    by simp
  from lg b have 2: "\<exists>ds. im_ops b
          = map Draw (ds @ [Text (94, 34) ''1C'' (255, 255, 255, 255) DefaultFont ''mm''])"
    by simp
  show ?thesis
    using h a b 1 2 by blast
qed

text \<open>
  C8. In the gradient loop of \<open>create_hq_bsl_logo\<close>, an iteration whose computed radius
  is not positive draws nothing, and an iteration whose radius is positive draws one filled
  circle of that radius; over the whole loop exactly the indices with positive radius are
  drawn. The colour of ring \<open>i\<close> is the linear interpolation from (206, 66, 43) towards
  (139, 44, 27), truncated, and its alpha strictly decreases with \<open>i\<close>. In
  \<open>create_bsl_logo\<close> the loop runs over \<open>range(radius)\<close>, so every ring it draws has the
  positive radius \<open>radius - i\<close> and no ring is drawn when \<open>radius\<close> is not positive; the
  colour is the same interpolation over \<open>radius\<close> steps, the alpha never increases with
  \<open>i\<close> and strictly decreases when \<open>radius\<close> is at most 255. Neither loop raises.
\<close>

theorem gradient_rings_policy:
  "(current_radius radius 50 i \<le> 0 \<longrightarrow> hq_gradient_body center radius 50 i d = Inr d)
   \<and> (0 < current_radius radius 50 i \<longrightarrow>
        hq_gradient_body center radius 50 i d =
          Inr (emits d
            [Ellipse (center - current_radius radius 50 i, center - current_radius radius 50 i,
                      center + current_radius radius 50 i, center + current_radius radius 50 i)
               (Some (hq_ring_color 50 i)) None 1]))
   \<and> hq_gradient center radius 50 d =
        Inr (emits d (map (\<lambda>i. Ellipse (center - current_radius radius 50 i,
                                        center - current_radius radius 50 i,
                                        center + current_radius radius 50 i,
                                        center + current_radius radius 50 i)
                               (Some (hq_ring_color 50 i)) None 1)
                       (filter (\<lambda>i. 0 < current_radius radius 50 i) (map int [0 ..< 50]))))
   \<and> (0 \<le> i \<and> i < 50 \<longrightarrow>
        hq_ring_color 50 i
          = ((10300 - 67 * i) div 50, (3300 - 22 * i) div 50, (2150 - 16 * i) div 50,
             459 * (50 - i) div 100))
   \<and> (0 \<le> i \<and> i < j \<and> j < 50 \<longrightarrow>
        snd (snd (snd (hq_ring_color 50 j))) < snd (snd (snd (hq_ring_color 50 i))))
   \<and> logo_gradient center radius d =
        Inr (emits d (map (\<lambda>i. Ellipse (center - radius + i, center - radius + i,
                                        center + radius - i, center + radius - i)
                               (Some (logo_ring_color radius i)) None 1)
                       (map int [0 ..< nat radius])))
   \<and> (\<forall>k \<in> set (map int [0 ..< nat radius]). 0 < radius - k)
   \<and> (radius \<le> 0 \<longrightarrow> logo_gradient center radius d = Inr d)
   \<and> (0 \<le> i \<and> i < radius \<longrightarrow>
        logo_ring_color radius i
          = ((206 * radius - 67 * i) div radius, (66 * radius - 22 * i) div radius,
             (43 * radius - 16 * i) div radius, 255 * (radius - i) div radius))
   \<and> (0 \<le> i \<and> i \<le> j \<and> j < radius \<longrightarrow>
        snd (snd (snd (logo_ring_color radius j))) \<le> snd (snd (snd (logo_ring_color radius i))))
   \<and> (0 \<le> i \<and> i < j \<and> j < radius \<and> radius \<le> 255 \<longrightarrow>
        snd (snd (snd (logo_ring_color radius j))) < snd (snd (snd (logo_ring_color radius i))))"
proof -
  have pos: "\<forall>k \<in> set (map int [0 ..< nat radius]). 0 < radius - k"
    by auto
  show ?thesis
    using hq_gradient_body_skip [of radius 50 i center d]
      hq_gradient_body_draw [of radius 50 i center d]
      hq_gradient_rings [of center radius d]
      hq_ring_color_closed [of i]
      hq_alpha_decreasing [of i j]
      logo_gradient_rings [of center radius d]
      logo_gradient_empty [of radius center d]
      logo_ring_color_closed [of i radius]
      logo_alpha_nonincreasing [of i j radius]
      logo_alpha_decreasing [of i j radius]
      pos
    by blast
qed

theorem gradient_rings_policy_witness:
  "current_radius (-30) 50 3 \<le> 0
   \<and> hq_gradient_body 2 (-30) 50 3 (canvas 4) = Inr (canvas 4)
   \<and> hq_gradient 2 (-30) 50 (canvas 4) = Inr (canvas 4)
   \<and> 0 < current_radius 224 50 1
   \<and> hq_gradient_body 256 224 50 1 (canvas 512)
       = Inr (emits (canvas 512) [Ellipse (36, 36, 476, 476) (Some (204, 65, 42, 224)) None 1])
   \<and> snd (snd (snd (hq_ring_color 50 2))) < snd (snd (snd (hq_ring_color 50 1)))
   \<and> logo_gradient 8 0 (canvas 16) = Inr (canvas 16)
   \<and> logo_ring_color 56 1 = (204, 65, 42, 250)
   \<and> snd (snd (snd (logo_ring_color 56 2))) < snd (snd (snd (logo_ring_color 56 1)))
   \<and> list_all (\<lambda>k. 0 < 56 - k) (map int [0 ..< nat 56])"
proof -
  have r1: "current_radius (-30) 50 3 \<le> 0" and r2: "0 < current_radius 224 50 1"
    and r3: "current_radius 224 50 1 = 220"
    by (simp_all add: current_radius_def)
  have none: "filter (\<lambda>i. 0 < current_radius (-30) 50 i) (map int [0 ..< 50]) = []"
    by (auto simp: filter_empty_conv current_radius_def)
  have c1: "hq_ring_color 50 1 = (204, 65, 42, 224)"
    using hq_ring_color_closed [of 1] by simp
  note a = gradient_rings_policy [where radius = "-30" and i = 3 and center = 2 and d = "canvas 4" and j = 4]
  note b = gradient_rings_policy [where radius = 224 and i = 1 and center = 256 and d = "canvas 512" and j = 2]
  note c = gradient_rings_policy [where radius = 56 and i = 1 and center = 8 and d = "canvas 16" and j = 2]
  note e = gradient_rings_policy [where radius = 0 and i = 1 and center = 8 and d = "canvas 16" and j = 2]
  have l1: "logo_ring_color 56 1 = (204, 65, 42, 250)"
    using c by simp
  show ?thesis
    using a b c e r1 r2 r3 none c1 l1 by (simp add: emits_Nil list_all_iff)
qed

text \<open>
  C9. No call of \<open>save\<close> in either script is guarded. For each script and for
  \<open>create_optimized_icons\<close>, with its output paths in the order it writes them: the
  paths \<open>save\<close> is called with are exactly the writable paths before the first
  unwritable one, followed by that one, each once (no retry, nothing after the failure);
  the result is the exception for the first unwritable path (it propagates out of
  \<open>create_optimized_icons\<close> and out of the script); the files written before the failure
  are still there and nothing else has changed (no cleanup). \<open>fail_stop\<close> says exactly
  this.
\<close>

theorem save_failure_is_fatal:
  "fail_stop w hq_script_paths (main_hq w)
   \<and> fail_stop w png_script_paths (main_png w)
   \<and> fail_stop w (map (\<lambda>(sz, suffix). icon_filename suffix) sizes) (create_optimized_icons w)
   \<and> (dropWhile (writable w) hq_script_paths = p # rest \<longrightarrow> fst (main_hq w) = Inl (OSError p))
   \<and> (dropWhile (writable w) png_script_paths = p # rest \<longrightarrow> fst (main_png w) = Inl (OSError p))
   \<and> (dropWhile (writable w) (map (\<lambda>(sz, suffix). icon_filename suffix) sizes) = p # rest \<longrightarrow>
        fst (create_optimized_icons w) = Inl (OSError p))"
proof -
  have a: "dropWhile (writable w) hq_script_paths = p # rest \<longrightarrow> fst (main_hq w) = Inl (OSError p)"
    using fail_stop_raise [OF main_hq_fail_stop] by blast
  have b: "dropWhile (writable w) png_script_paths = p # rest \<longrightarrow> fst (main_png w) = Inl (OSError p)"
    using fail_stop_raise [OF main_png_fail_stop] by blast
  have c: "dropWhile (writable w) (map (\<lambda>(sz, suffix). icon_filename suffix) sizes) = p # rest \<longrightarrow>
        fst (create_optimized_icons w) = Inl (OSError p)"
    using fail_stop_raise [OF create_optimized_icons_fail_stop] by blast
  show ?thesis
    using main_hq_fail_stop [of w] main_png_fail_stop [of w]
      create_optimized_icons_fail_stop [of w] a b c by simp
qed

theorem save_failure_is_fatal_witness:
  "fst (main_hq medium_unwritable)
     = Inl (OSError ''vscode-extension/images/bsl-analyzer-medium.png'')
   \<and> save_calls (snd (main_hq medium_unwritable))
       = [''vscode-extension/images/bsl-analyzer-logo.png'',
          ''vscode-extension/images/bsl-analyzer-small.png'',
          ''vscode-extension/images/bsl-analyzer-medium.png'']
   \<and> files (snd (main_hq medium_unwritable)) ''vscode-extension/images/bsl-analyzer-logo.png'' \<noteq> None
   \<and> files (snd (main_hq medium_unwritable)) ''vscode-extension/images/bsl-analyzer-small.png'' \<noteq> None
   \<and> files (snd (main_hq medium_unwritable)) ''vscode-extension/images/bsl-analyzer-medium.png'' = None
   \<and> files (snd (main_hq medium_unwritable)) ''vscode-extension/images/bsl-analyzer-large.png'' = None"
proof -
  have tw: "takeWhile (writable medium_unwritable) hq_script_paths
              = [''vscode-extension/images/bsl-analyzer-logo.png'',
                 ''vscode-extension/images/bsl-analyzer-small.png'']"
    and dw: "dropWhile (writable medium_unwritable) hq_script_paths
              = [''vscode-extension/images/bsl-analyzer-medium.png'',
                 ''vscode-extension/images/bsl-analyzer-large.png'',
                 ''vscode-extension/images/bsl-analyzer-xlarge.png'',
                 ''vscode-extension/images/bsl-analyzer-icon.png'']"
    by (simp_all add: medium_unwritable_def hq_script_paths_def sizes_def icon_filename_def)
  have e: "save_calls medium_unwritable = []" "files medium_unwritable = Map.empty"
    by (simp_all add: medium_unwritable_def bare_world_def)
  note t = save_failure_is_fatal [where w = medium_unwritable
      and p = "''vscode-extension/images/bsl-analyzer-medium.png''"
      and rest = "[''vscode-extension/images/bsl-analyzer-large.png'',
                 ''vscode-extension/images/bsl-analyzer-xlarge.png'',
                 ''vscode-extension/images/bsl-analyzer-icon.png'']"]
  from t have fs: "fail_stop medium_unwritable hq_script_paths (main_hq medium_unwritable)"
    by blast
  from t dw have r: "fst (main_hq medium_unwritable)
     = Inl (OSError ''vscode-extension/images/bsl-analyzer-medium.png'')"
    by blast
  show ?thesis
    using fs r unfolding fail_stop_def tw dw e by simp
qed

text \<open>
  C10. In \<open>create_hq_bsl_logo\<close>, for every size of at least 17 the disk radius is at least
  1, every one of the 50 gradient iterations has \<open>i * radius // 50 < radius\<close> and so a
  strictly positive \<open>current_radius\<close>, the skip branch is never taken, and the loop draws
  exactly 50 rings, on the working canvas, before anything else is drawn.
\<close>

theorem hq_gradient_draws_all_fifty_rings:
  assumes "17 \<le> S"
  shows "1 \<le> S * 4 div 2 - 32
       \<and> (\<forall>i. 0 \<le> i \<and> i < 50 \<longrightarrow>
            i * (S * 4 div 2 - 32) div 50 < S * 4 div 2 - 32
            \<and> 0 < current_radius (S * 4 div 2 - 32) 50 i
            \<and> hq_gradient_body c (S * 4 div 2 - 32) 50 i d
                = create_smooth_circle d (c, c) (current_radius (S * 4 div 2 - 32) 50 i)
                    (hq_ring_color 50 i) 0)
       \<and> hq_gradient c (S * 4 div 2 - 32) 50 d =
            Inr (emits d (map (\<lambda>i. Ellipse (c - current_radius (S * 4 div 2 - 32) 50 i,
                                            c - current_radius (S * 4 div 2 - 32) 50 i,
                                            c + current_radius (S * 4 div 2 - 32) 50 i,
                                            c + current_radius (S * 4 div 2 - 32) 50 i)
                                   (Some (hq_ring_color 50 i)) None 1)
                           (map int [0 ..< 50])))
       \<and> (\<exists>d'. hq_gradient c (S * 4 div 2 - 32) 50 d = Inr d'
              \<and> length (im_ops (d_image d')) = length (im_ops (d_image d)) + 50)
       \<and> hq_paint w S
           = and_then (hq_gradient (S * 4 div 2) (S * 4 div 2 - 32) 50 (canvas (S * 4)))
               (hq_after_gradient w (S * 4 div 2) (S * 4 div 2 - 32))
       \<and> (\<forall>p. hq_paint w S = Inr p \<longrightarrow>
             (\<exists>g ds. hq_gradient (S * 4 div 2) (S * 4 div 2 - 32) 50 (canvas (S * 4)) = Inr g
                \<and> p = emits g ds))"
proof -
  have r: "1 \<le> S * 4 div 2 - 32"
    using assms by simp
  have p: "0 < current_radius (S * 4 div 2 - 32) 50 i" if "0 \<le> i" "i < 50" for i
    using current_radius_positive [OF r that] .
  have body: "\<forall>i. 0 \<le> i \<and> i < 50 \<longrightarrow>
            i * (S * 4 div 2 - 32) div 50 < S * 4 div 2 - 32
            \<and> 0 < current_radius (S * 4 div 2 - 32) 50 i
            \<and> hq_gradient_body c (S * 4 div 2 - 32) 50 i d
                = create_smooth_circle d (c, c) (current_radius (S * 4 div 2 - 32) 50 i)
                    (hq_ring_color 50 i) 0"
  proof (intro allI impI)
    fix i :: int assume i: "0 \<le> i \<and> i < 50"
    then have "0 < current_radius (S * 4 div 2 - 32) 50 i"
      using p by simp
    then show "i * (S * 4 div 2 - 32) div 50 < S * 4 div 2 - 32
            \<and> 0 < current_radius (S * 4 div 2 - 32) 50 i
            \<and> hq_gradient_body c (S * 4 div 2 - 32) 50 i d
                = create_smooth_circle d (c, c) (current_radius (S * 4 div 2 - 32) 50 i)
                    (hq_ring_color 50 i) 0"
      by (simp add: hq_gradient_body_def current_radius_def)
  qed
  have loop: "hq_gradient c (S * 4 div 2 - 32) 50 d =
            Inr (emits d (map (\<lambda>i. Ellipse (c - current_radius (S * 4 div 2 - 32) 50 i,
                                            c - current_radius (S * 4 div 2 - 32) 50 i,
                                            c + current_radius (S * 4 div 2 - 32) 50 i,
                                            c + current_radius (S * 4 div 2 - 32) 50 i)
                                   (Some (hq_ring_color 50 i)) None 1)
                           (map int [0 ..< 50])))" for c d
    unfolding hq_gradient_rings hq_gradient_all_rings [OF r] ..
  have len: "\<exists>d'. hq_gradient c (S * 4 div 2 - 32) 50 d = Inr d'
              \<and> length (im_ops (d_image d')) = length (im_ops (d_image d)) + 50"
    unfolding loop by simp
  have S0: "0 \<le> S" using assms by simp
  note paint = hq_paint_unfold [OF S0, of w]
  have tie: "\<forall>p. hq_paint w S = Inr p \<longrightarrow>
             (\<exists>g ds. hq_gradient (S * 4 div 2) (S * 4 div 2 - 32) 50 (canvas (S * 4)) = Inr g
                \<and> p = emits g ds)"
  proof (intro allI impI)
    fix p assume ok: "hq_paint w S = Inr p"
    then have S32: "32 \<le> S" using hq_paint_shape by blast
    then have r32: "32 \<le> S * 4 div 2 - 32" by simp
    obtain g where g: "hq_gradient (S * 4 div 2) (S * 4 div 2 - 32) 50 (canvas (S * 4)) = Inr g"
      using loop by blast
    obtain ds where "hq_after_gradient w (S * 4 div 2) (S * 4 div 2 - 32) g = Inr (emits g ds)"
      using hq_after_gradient_emits [OF r32] by blast
    then have "p = emits g ds"
      using ok unfolding paint g by simp
    then show "\<exists>g ds. hq_gradient (S * 4 div 2) (S * 4 div 2 - 32) 50 (canvas (S * 4)) = Inr g
                \<and> p = emits g ds"
      using g by blast
  qed
  show ?thesis
    using r body loop [of c d] len paint tie by blast
qed

theorem hq_gradient_draws_all_fifty_rings_witness:
  "(17::int) \<le> 17
   \<and> 0 < current_radius (17 * 4 div 2 - 32) 50 49
   \<and> current_radius (17 * 4 div 2 - 32) 50 49 = 1
   \<and> (\<exists>d'. hq_gradient 34 (17 * 4 div 2 - 32) 50 (canvas 68) = Inr d'
        \<and> length (im_ops (d_image d')) = 50)"
proof -
  have h: "(17::int) \<le> 17" by simp
  have v: "current_radius (17 * 4 div 2 - 32) 50 49 = 1"
    by (simp add: current_radius_def)
  note t = hq_gradient_draws_all_fifty_rings [OF h, of 34 "canvas 68" bare_world]
  note len = t [THEN conjunct2, THEN conjunct2, THEN conjunct2, THEN conjunct1]
  from len have "\<exists>d'. hq_gradient 34 (17 * 4 div 2 - 32) 50 (canvas 68) = Inr d'
        \<and> length (im_ops (d_image d')) = 50"
    by simp
  then show ?thesis
    using h v by simp
qed


end
